theory Spec2Isabelle
  imports Complex_Main "HOL-Library.Log_Nat"
begin

section \<open>JavaScript numbers\<close>

text \<open>
  Every number of the program is an IEEE 754 binary64 value. A finite value is kept as the
  rational it denotes; the two zeros are identified (the program cannot tell them apart:
  both are falsy, and \<open>Math.floor\<close>, \<open>*\<close> and \<open>+\<close> send them to a zero).
\<close>

datatype jsnum = NaN | PosInf | NegInf | Fin rat

definition round_half_even :: "rat \<Rightarrow> int" where
  "round_half_even x =
     (if x - of_int \<lfloor>x\<rfloor> < 1 / 2 then \<lfloor>x\<rfloor>
      else if 1 / 2 < x - of_int \<lfloor>x\<rfloor> then \<lfloor>x\<rfloor> + 1
      else if even \<lfloor>x\<rfloor> then \<lfloor>x\<rfloor> else \<lfloor>x\<rfloor> + 1)"

text \<open>The binary exponent of a positive rational: \<open>2 powi e \<le> x < 2 powi (e + 1)\<close>.\<close>

definition flog2 :: "rat \<Rightarrow> int" where
  "flog2 x = (if 1 \<le> x then bitlen \<lfloor>x\<rfloor> - 1 else - bitlen (\<lceil>1 / x\<rceil> - 1))"

text \<open>
  Rounding of an exact result to binary64, to nearest with ties to even: 53 significant
  bits, subnormals below \<open>2 powi (-1022)\<close>, overflow to an infinity.
\<close>

definition round64_pos :: "rat \<Rightarrow> rat" where
  "round64_pos a =
     of_int (round_half_even (a / 2 powi (max (flog2 a) (- 1022) - 52)))
       * 2 powi (max (flog2 a) (- 1022) - 52)"

definition round64 :: "rat \<Rightarrow> jsnum" where
  "round64 x =
     (if x = 0 then Fin 0
      else if 0 < x then (if 2 ^ 1024 \<le> round64_pos x then PosInf else Fin (round64_pos x))
      else (if 2 ^ 1024 \<le> round64_pos (- x) then NegInf else Fin (- round64_pos (- x))))"

fun js_neg :: "jsnum \<Rightarrow> jsnum" where
  "js_neg NaN = NaN"
| "js_neg PosInf = NegInf"
| "js_neg NegInf = PosInf"
| "js_neg (Fin a) = Fin (- a)"

text \<open>The operator \<open>*\<close> on numbers.\<close>

fun js_mul :: "jsnum \<Rightarrow> jsnum \<Rightarrow> jsnum" where
  "js_mul NaN _ = NaN"
| "js_mul _ NaN = NaN"
| "js_mul (Fin a) (Fin b) = round64 (a * b)"
| "js_mul (Fin a) PosInf = (if a = 0 then NaN else if 0 < a then PosInf else NegInf)"
| "js_mul (Fin a) NegInf = (if a = 0 then NaN else if 0 < a then NegInf else PosInf)"
| "js_mul PosInf (Fin b) = (if b = 0 then NaN else if 0 < b then PosInf else NegInf)"
| "js_mul NegInf (Fin b) = (if b = 0 then NaN else if 0 < b then NegInf else PosInf)"
| "js_mul PosInf PosInf = PosInf"
| "js_mul PosInf NegInf = NegInf"
| "js_mul NegInf PosInf = NegInf"
| "js_mul NegInf NegInf = PosInf"

text \<open>The operator \<open>+\<close> on numbers.\<close>

fun js_add :: "jsnum \<Rightarrow> jsnum \<Rightarrow> jsnum" where
  "js_add NaN _ = NaN"
| "js_add _ NaN = NaN"
| "js_add (Fin a) (Fin b) = round64 (a + b)"
| "js_add (Fin a) PosInf = PosInf"
| "js_add (Fin a) NegInf = NegInf"
| "js_add PosInf (Fin b) = PosInf"
| "js_add NegInf (Fin b) = NegInf"
| "js_add PosInf PosInf = PosInf"
| "js_add PosInf NegInf = NaN"
| "js_add NegInf PosInf = NaN"
| "js_add NegInf NegInf = NegInf"

text \<open>\<open>Math.floor\<close>: the floor of a binary64 value is a binary64 value, so nothing is rounded.\<close>

fun Math_floor :: "jsnum \<Rightarrow> jsnum" where
  "Math_floor (Fin a) = Fin (of_int \<lfloor>a\<rfloor>)"
| "Math_floor x = x"

text \<open>Truthiness of a number: \<open>NaN\<close> and the zeros are falsy.\<close>

fun num_truthy :: "jsnum \<Rightarrow> bool" where
  "num_truthy NaN = False"
| "num_truthy (Fin a) = (a \<noteq> 0)"
| "num_truthy _ = True"

section \<open>JavaScript values and strings\<close>

text \<open>
  The values \<open>JSON.parse\<close> can return, and \<open>undefined\<close> for a property that is not there.
  A string is kept as its UTF-8 bytes. An object lists each key once.
\<close>

datatype jsval =
    JUndefined
  | JNull
  | JBool bool
  | JNum jsnum
  | JStr string
  | JArr "jsval list"
  | JObj "(string \<times> jsval) list"

datatype error = TypeError | SyntaxError

text \<open>What the program needs from its runtime and its libraries, without their code.\<close>

record env =
  SHOPIFY_WEBHOOK_SECRET :: "string option"
    \<comment> \<open>\<open>process.env.SHOPIFY_WEBHOOK_SECRET\<close>; \<open>None\<close> when the variable is not set\<close>
  hmac_sha256_base64 :: "string \<Rightarrow> string \<Rightarrow> string"
    \<comment> \<open>\<open>crypto.createHmac('sha256', key).update(data, 'utf8').digest('base64')\<close>\<close>
  JSON_parse :: "string \<Rightarrow> jsval option"
    \<comment> \<open>\<open>JSON.parse\<close> of the decoded body; \<open>None\<close> when it throws a SyntaxError\<close>
  Number_toString :: "rat \<Rightarrow> string"
    \<comment> \<open>the decimal text of a finite number\<close>

fun truthy :: "jsval \<Rightarrow> bool" where
  "truthy JUndefined = False"
| "truthy JNull = False"
| "truthy (JBool b) = b"
| "truthy (JNum n) = num_truthy n"
| "truthy (JStr s) = (s \<noteq> [])"
| "truthy (JArr xs) = True"
| "truthy (JObj kvs) = True"

text \<open>
  Reading a property \<open>v.k\<close>, for the names the program reads (\<open>customer\<close>, \<open>total_price\<close>,
  \<open>id\<close>, \<open>email\<close>, \<open>first_name\<close>, \<open>last_name\<close>): no built-in prototype defines them, so
  only an object's own entries answer. Reading from \<open>null\<close> or \<open>undefined\<close> throws.
\<close>

fun get_prop :: "jsval \<Rightarrow> string \<Rightarrow> error + jsval" where
  "get_prop JUndefined k = Inl TypeError"
| "get_prop JNull k = Inl TypeError"
| "get_prop (JObj kvs) k = Inr (case map_of kvs k of None \<Rightarrow> JUndefined | Some v \<Rightarrow> v)"
| "get_prop v k = Inr JUndefined"

definition bind_e :: "error + 'a \<Rightarrow> ('a \<Rightarrow> error + 'b) \<Rightarrow> error + 'b" where
  "bind_e m f = (case m of Inl e \<Rightarrow> Inl e | Inr x \<Rightarrow> f x)"

definition num_string :: "env \<Rightarrow> jsnum \<Rightarrow> string" where
  "num_string E n =
     (case n of NaN \<Rightarrow> ''NaN'' | PosInf \<Rightarrow> ''Infinity'' | NegInf \<Rightarrow> ''-Infinity''
      | Fin a \<Rightarrow> Number_toString E a)"

text \<open>
  The conversion to a string behind \<open>String(v)\<close>, a template literal and \<open>parseFloat\<close>.
  An array joins its elements with commas, \<open>null\<close> and \<open>undefined\<close> elements giving the
  empty string. A parsed object has no callable \<open>toString\<close> of its own: when it has an own
  entry of that name the conversion throws, otherwise the inherited one answers.
\<close>

fun ToString :: "env \<Rightarrow> jsval \<Rightarrow> error + string"
  and join_elements :: "env \<Rightarrow> jsval list \<Rightarrow> error + string"
where
  "ToString E JUndefined = Inr ''undefined''"
| "ToString E JNull = Inr ''null''"
| "ToString E (JBool b) = Inr (if b then ''true'' else ''false'')"
| "ToString E (JNum n) = Inr (num_string E n)"
| "ToString E (JStr s) = Inr s"
| "ToString E (JArr xs) = join_elements E xs"
| "ToString E (JObj kvs) =
     (if map_of kvs ''toString'' \<noteq> None then Inl TypeError else Inr ''[object Object]'')"
| "join_elements E [] = Inr []"
| "join_elements E (x # xs) =
     bind_e (if x = JUndefined \<or> x = JNull then Inr [] else ToString E x) (\<lambda>s.
       if xs = [] then Inr s
       else bind_e (join_elements E xs) (\<lambda>t. Inr (s @ '','' @ t)))"

text \<open>
  White space and line terminators, as UTF-8 byte sequences: TAB, LF, VT, FF, CR, SP,
  U+00A0, U+1680, U+2000 to U+200A, U+2028, U+2029, U+202F, U+205F, U+3000, U+FEFF.
\<close>

definition ws_seqs :: "nat list list" where
  "ws_seqs =
     [[9], [10], [11], [12], [13], [32], [194, 160], [225, 154, 128]]
     @ map (\<lambda>b. [226, 128, b]) ([128 ..< 139] @ [168, 169, 175])
     @ [[226, 129, 159], [227, 128, 128], [239, 187, 191]]"

definition ws_len :: "nat list list \<Rightarrow> string \<Rightarrow> nat" where
  "ws_len seqs s =
     (case filter (\<lambda>q. take (length q) (map of_char s) = q) seqs of
        [] \<Rightarrow> 0 | q # _ \<Rightarrow> length q)"

function trim_start_with :: "nat list list \<Rightarrow> string \<Rightarrow> string" where
  "trim_start_with seqs s =
     (if s = [] \<or> ws_len seqs s = 0 then s
      else trim_start_with seqs (drop (ws_len seqs s) s))"
  by pat_completeness auto
termination
  by (relation "measure (\<lambda>(seqs, s). length s)") auto

declare trim_start_with.simps [simp del]

definition trim_start :: "string \<Rightarrow> string" where
  "trim_start s = trim_start_with ws_seqs s"

text \<open>\<open>String.prototype.trim\<close>.\<close>

definition trim :: "string \<Rightarrow> string" where
  "trim s = rev (trim_start_with (map rev ws_seqs) (rev (trim_start s)))"

section \<open>parseFloat\<close>

definition is_digit :: "char \<Rightarrow> bool" where
  "is_digit c \<longleftrightarrow> c \<in> set ''0123456789''"

definition dec :: "string \<Rightarrow> nat" where
  "dec ds = foldl (\<lambda>acc c. 10 * acc + (of_char c - 48)) 0 ds"

text \<open>
  The exponent part at the head of \<open>s\<close>: \<open>e\<close> or \<open>E\<close>, an optional sign and at least
  one digit. Without a digit there is no exponent part, which is the exponent 0.
\<close>

definition exponent_part :: "string \<Rightarrow> int" where
  "exponent_part s =
     (case s of
        [] \<Rightarrow> 0
      | c # t \<Rightarrow>
          if c = CHR ''e'' \<or> c = CHR ''E'' then
            (case t of
               [] \<Rightarrow> 0
             | g # u \<Rightarrow>
                 if g = CHR ''+'' then int (dec (takeWhile is_digit u))
                 else if g = CHR ''-'' then - int (dec (takeWhile is_digit u))
                 else int (dec (takeWhile is_digit t)))
          else 0)"

text \<open>
  The longest prefix of \<open>s\<close> that is an unsigned decimal literal (\<open>Infinity\<close>, or digits with
  an optional fraction and exponent part), and its value rounded to binary64;
  \<open>NaN\<close> when no prefix is one.
\<close>

definition unsigned_literal :: "string \<Rightarrow> jsnum" where
  "unsigned_literal s =
     (if take 8 s = ''Infinity'' then PosInf
      else
        let ip = takeWhile is_digit s;
            r = dropWhile is_digit s;
            dot = (r \<noteq> [] \<and> hd r = CHR ''.'');
            fp = (if dot then takeWhile is_digit (tl r) else []);
            rest = (if dot then dropWhile is_digit (tl r) else r)
        in if ip = [] \<and> fp = [] then NaN
           else round64 (of_nat (dec (ip @ fp)) * 10 powi (exponent_part rest - int (length fp))))"

definition parseFloat_str :: "string \<Rightarrow> jsnum" where
  "parseFloat_str s =
     (let t = trim_start s in
      if t \<noteq> [] \<and> hd t = CHR ''-'' then js_neg (unsigned_literal (tl t))
      else if t \<noteq> [] \<and> hd t = CHR ''+'' then unsigned_literal (tl t)
      else unsigned_literal t)"

text \<open>
  \<open>parseFloat(v)\<close> converts its argument to a string and reads the number at its head.
  The text of a number reads back as that number, so a number is returned as it is.
\<close>

definition parseFloat :: "env \<Rightarrow> jsval \<Rightarrow> error + jsnum" where
  "parseFloat E v =
     (case v of
        JNum n \<Rightarrow> Inr n
      | _ \<Rightarrow> bind_e (ToString E v) (\<lambda>s. Inr (parseFloat_str s)))"

text \<open>The amount a plain decimal text denotes: digits \<open>ip\<close>, a point, digits \<open>fp\<close>.\<close>

definition decimal_value :: "string \<Rightarrow> string \<Rightarrow> rat" where
  "decimal_value ip fp = of_nat (dec (ip @ fp)) / 10 ^ length fp"

section \<open>The points calculator\<close>

text \<open>
  \<^verbatim>\<open>
  function calcPoints(totalPrice) {
    const amount = parseFloat(totalPrice) || 0;
    const rate = 3;
    return Math.floor(amount * rate);
  }
  \<close>
\<close>

definition calcPoints :: "env \<Rightarrow> jsval \<Rightarrow> error + jsnum" where
  "calcPoints E totalPrice =
     bind_e (parseFloat E totalPrice) (\<lambda>x.
       let amount = (if num_truthy x then x else Fin 0);
           rate = Fin 3
       in Inr (Math_floor (js_mul amount rate)))"

text \<open>
  The file holds two revisions of the program one after the other; the second one
  (from its second \<open>require('dotenv')\<close> on) is the one modelled. The first revision's
  calculator has no rate and no fallback for \<open>NaN\<close>:
  \<^verbatim>\<open>function calcPoints(totalPrice) { return Math.floor(parseFloat(totalPrice)); }\<close>
\<close>

definition calcPoints_first :: "env \<Rightarrow> jsval \<Rightarrow> error + jsnum" where
  "calcPoints_first E totalPrice = bind_e (parseFloat E totalPrice) (\<lambda>x. Inr (Math_floor x))"

section \<open>The store\<close>

text \<open>
  Modelled from the spec: the tables \<open>users\<close>, \<open>wallets\<close> and \<open>wallet_transactions\<close> live in
  the store, and their declarations are not part of the source. The spec gives an account
  a unique external customer id, a display name and a contact email; a balance a current
  and a lifetime point total, both integers, set to zero when the balance is created, and
  a last-updated timestamp; a transaction its balance, direction, source category,
  external order id, point delta and note. Row ids are given out by the store. The
  columns below are the ones the program reads or writes. No constraint is modelled
  beyond these: an integer column takes integers only, and the external customer id is
  the conflict key of the upsert.
\<close>

record user_row =
  u_id :: nat
  u_shopify_customer_id :: string
  u_email :: jsval
  u_name :: string

record wallet_row =
  w_id :: nat
  w_user_id :: nat
  w_points :: int
  w_lifetime_points :: int
  w_updated_at :: "string option"
    \<comment> \<open>\<open>None\<close> until the program writes it: the store's own default\<close>

record txn_row =
  t_wallet_id :: nat
  t_type :: string
  t_source :: string
  t_shopify_order_id :: string
  t_points_change :: int
  t_note :: string

record db =
  users :: "user_row list"
  wallets :: "wallet_row list"
  wallet_transactions :: "txn_row list"

definition fresh_id :: "nat list \<Rightarrow> nat" where
  "fresh_id ids = Suc (fold max ids 0)"

text \<open>\<open>.single()\<close>: the row when exactly one row came back, otherwise no data.\<close>

definition single :: "'a list \<Rightarrow> 'a option" where
  "single rows = (case rows of [r] \<Rightarrow> Some r | _ \<Rightarrow> None)"

text \<open>
  \<open>.maybeSingle()\<close>: no data and no error for no row, the row for one row, an error for
  more than one.
\<close>

definition maybeSingle :: "'a list \<Rightarrow> unit + 'a option" where
  "maybeSingle rows = (case rows of [] \<Rightarrow> Inr None | [r] \<Rightarrow> Inr (Some r) | _ \<Rightarrow> Inl ())"

text \<open>
  Modelled from the spec: the column types are declared with the tables, which are not
  in the source; the spec makes the point totals and the point delta integers. A number
  the program sends for such a column is stored when it is an integral finite number;
  anything else (an infinity or \<open>NaN\<close> travels as \<open>null\<close>) makes the store refuse the
  statement.
\<close>

definition int_column :: "jsnum \<Rightarrow> int option" where
  "int_column n = (case n of Fin a \<Rightarrow> if of_int \<lfloor>a\<rfloor> = a then Some \<lfloor>a\<rfloor> else None | _ \<Rightarrow> None)"

text \<open>An integer column read back into the program is a number.\<close>

definition num_of_int :: "int \<Rightarrow> jsnum" where
  "num_of_int i = round64 (of_int i)"

text \<open>
  \<open>from('users').upsert({shopify_customer_id, email, name},
  {onConflict: 'shopify_customer_id'}).select()\<close>: the rows with that customer id take the
  new name, and the new email unless it is \<open>undefined\<close> (an \<open>undefined\<close> entry is not
  sent); without such a row one is added, with an id of the store's choosing. The rows
  written come back.
\<close>

definition upsert_user ::
  "string \<Rightarrow> jsval \<Rightarrow> string \<Rightarrow> user_row list \<Rightarrow> user_row list \<times> user_row list" where
  "upsert_user cid email name us =
     (if \<exists>u \<in> set us. u_shopify_customer_id u = cid
      then
        let us' = map (\<lambda>u. if u_shopify_customer_id u = cid
                            then u\<lparr>u_email := (if email = JUndefined then u_email u else email),
                                   u_name := name\<rparr>
                            else u) us
        in (filter (\<lambda>u. u_shopify_customer_id u = cid) us', us')
      else
        let u = \<lparr>u_id = fresh_id (map u_id us), u_shopify_customer_id = cid,
                 u_email = (if email = JUndefined then JNull else email), u_name = name\<rparr>
        in ([u], us @ [u]))"

text \<open>
  Modelled from the spec: the defaults of the columns an insert leaves out are declared
  with the \<open>wallets\<close> table, which is not in the source; the spec has the current and the
  lifetime total of a new balance start at zero.
  \<open>from('wallets').insert({user_id}).select()\<close> sends the user id only.
\<close>

definition insert_wallet :: "nat \<Rightarrow> wallet_row list \<Rightarrow> wallet_row list \<times> wallet_row list" where
  "insert_wallet uid ws =
     (let w = \<lparr>w_id = fresh_id (map w_id ws), w_user_id = uid, w_points = 0,
               w_lifetime_points = 0, w_updated_at = None\<rparr>
      in ([w], ws @ [w]))"

text \<open>
  \<open>from('wallet_transactions').insert({...})\<close>, the point delta being a number. The
  program does not look at the error of a refused statement, here or at the update below.
\<close>

definition insert_transaction ::
  "nat \<Rightarrow> string \<Rightarrow> string \<Rightarrow> string \<Rightarrow> jsnum \<Rightarrow> string \<Rightarrow> txn_row list \<Rightarrow> txn_row list" where
  "insert_transaction wid ty src oid change note ts =
     (case int_column change of
        None \<Rightarrow> ts
      | Some c \<Rightarrow> ts @ [\<lparr>t_wallet_id = wid, t_type = ty, t_source = src,
                          t_shopify_order_id = oid, t_points_change = c, t_note = note\<rparr>])"

text \<open>\<open>from('wallets').update({points, lifetime_points, updated_at}).eq('id', wid)\<close>.\<close>

definition update_wallet ::
  "nat \<Rightarrow> jsnum \<Rightarrow> jsnum \<Rightarrow> string \<Rightarrow> wallet_row list \<Rightarrow> wallet_row list" where
  "update_wallet wid pts life now ws =
     (case (int_column pts, int_column life) of
        (Some p, Some l) \<Rightarrow>
          map (\<lambda>w. if w_id w = wid
                    then w\<lparr>w_points := p, w_lifetime_points := l, w_updated_at := Some now\<rparr>
                    else w) ws
      | _ \<Rightarrow> ws)"

section \<open>The webhook handler\<close>

text \<open>
  The request as the handler receives it, after
  \<^verbatim>\<open>app.use(bodyParser.raw({ type: 'application/json' }));\<close>
  The middleware reads the body into a Buffer when the request is of type
  \<open>application/json\<close> and has a body; otherwise it leaves \<open>req.body\<close> without a Buffer. A
  request it refuses (a body over its size limit, an unknown content encoding) does not
  reach the handler.
\<close>

record request =
  hmac_header :: "string option"
    \<comment> \<open>\<open>req.get('X-Shopify-Hmac-Sha256')\<close>; \<open>None\<close> when the header is absent\<close>
  body :: "string option"
    \<comment> \<open>\<open>req.body\<close>: the bytes of the Buffer the middleware kept; \<open>None\<close> when it kept
      none and \<open>req.body\<close> is the empty object it leaves in that case\<close>

datatype response = Send nat string | Json nat jsval

text \<open>
  \<^verbatim>\<open>
  function verifyHmac(req) {
    const hmacHeader = req.get('X-Shopify-Hmac-Sha256');
    const secret = process.env.SHOPIFY_WEBHOOK_SECRET;
    const digest = crypto.createHmac('sha256', secret).update(req.body, 'utf8').digest('base64');
    return digest === hmacHeader;
  }
  \<close>
  \<open>crypto.createHmac\<close> throws a TypeError when the key is \<open>undefined\<close>, and \<open>update\<close> throws
  a TypeError when its data is neither a string nor a Buffer.
\<close>

definition verifyHmac :: "env \<Rightarrow> request \<Rightarrow> error + bool" where
  "verifyHmac E req =
     (case SHOPIFY_WEBHOOK_SECRET E of
        None \<Rightarrow> Inl TypeError
      | Some secret \<Rightarrow>
          (case body req of
             None \<Rightarrow> Inl TypeError
           | Some b \<Rightarrow> Inr (Some (hmac_sha256_base64 E secret b) = hmac_header req)))"

text \<open>
  \<^verbatim>\<open>function getJson(req) { return JSON.parse(req.body.toString('utf8')); }\<close>
  The text of the empty object, \<open>[object Object]\<close>, is no JSON.
\<close>

definition getJson :: "env \<Rightarrow> request \<Rightarrow> error + jsval" where
  "getJson E req =
     (case body req of
        None \<Rightarrow> Inl SyntaxError
      | Some b \<Rightarrow> (case JSON_parse E b of None \<Rightarrow> Inl SyntaxError | Some v \<Rightarrow> Inr v))"

text \<open>What the handler takes from the order before it turns to the store.\<close>

record purchase =
  shopifyCustomerId :: string
  email :: jsval
  name :: string
  points :: jsnum
  orderId :: string

text \<open>
  Lines 177 to 187: \<open>None\<close> is the early return for a falsy \<open>customer\<close>; an error is a
  throw, which the handler's \<open>catch\<close> receives.
  \<^verbatim>\<open>
    const customer = order.customer;
    if (!customer) return res.status(200).send("No customer");
    const shopifyCustomerId = String(customer.id);
    const email = customer.email;
    const name = `${customer.first_name || ''} ${customer.last_name || ''}`.trim();
    const totalPrice = order.total_price;
    const points = calcPoints(totalPrice);
    const orderId = String(order.id);
  \<close>
\<close>

definition read_order :: "env \<Rightarrow> jsval \<Rightarrow> error + purchase option" where
  "read_order E order =
     bind_e (get_prop order ''customer'') (\<lambda>customer.
     if \<not> truthy customer then Inr None
     else
       bind_e (get_prop customer ''id'') (\<lambda>cid.
       bind_e (ToString E cid) (\<lambda>shopifyCustomerId.
       bind_e (get_prop customer ''email'') (\<lambda>email.
       bind_e (get_prop customer ''first_name'') (\<lambda>first_name.
       bind_e (ToString E (if truthy first_name then first_name else JStr [])) (\<lambda>first.
       bind_e (get_prop customer ''last_name'') (\<lambda>last_name.
       bind_e (ToString E (if truthy last_name then last_name else JStr [])) (\<lambda>last.
       bind_e (get_prop order ''total_price'') (\<lambda>totalPrice.
       bind_e (calcPoints E totalPrice) (\<lambda>points.
       bind_e (get_prop order ''id'') (\<lambda>oid.
       bind_e (ToString E oid) (\<lambda>orderId.
         Inr (Some \<lparr>shopifyCustomerId = shopifyCustomerId, email = email,
                     name = trim (first @ '' '' @ last), points = points,
                     orderId = orderId\<rparr>)))))))))))))"

definition server_error :: response where
  "server_error = Send 500 ''Server error''"

text \<open>
  Steps 3 and 4 of the handler: the upsert of the user, then the wallet of that user,
  found or created. \<open>None\<close> is the throw of \<open>user.id\<close> when the upsert's \<open>.single()\<close> gave
  no data; the store keeps what the upsert wrote.
\<close>

definition resolve_wallet :: "purchase \<Rightarrow> db \<Rightarrow> wallet_row option \<times> db" where
  "resolve_wallet p d =
     (let (rows, us) = upsert_user (shopifyCustomerId p) (email p) (name p) (users d);
          d1 = d\<lparr>users := us\<rparr>
      in case single rows of
           None \<Rightarrow> (None, d1)
         | Some user \<Rightarrow>
             (case single (filter (\<lambda>w. w_user_id w = u_id user) (wallets d1)) of
                Some wallet \<Rightarrow> (Some wallet, d1)
              | None \<Rightarrow>
                  let (new, ws) = insert_wallet (u_id user) (wallets d1)
                  in (single new, d1\<lparr>wallets := ws\<rparr>)))"

text \<open>Steps 5 and 6: the transaction record, then the balances.\<close>

definition record_award :: "string \<Rightarrow> purchase \<Rightarrow> wallet_row \<Rightarrow> db \<Rightarrow> db" where
  "record_award now p wallet d =
     (let d1 = d\<lparr>wallet_transactions :=
                  insert_transaction (w_id wallet) ''earn'' ''order'' (orderId p) (points p)
                    ''Points from order'' (wallet_transactions d)\<rparr>
      in d1\<lparr>wallets :=
              update_wallet (w_id wallet)
                (js_add (num_of_int (w_points wallet)) (points p))
                (js_add (num_of_int (w_lifetime_points wallet)) (points p))
                now (wallets d1)\<rparr>)"

definition apply_purchase :: "string \<Rightarrow> purchase \<Rightarrow> db \<Rightarrow> response \<times> db" where
  "apply_purchase now p d =
     (case resolve_wallet p d of
        (None, d1) \<Rightarrow> (server_error, d1)
      | (Some wallet, d1) \<Rightarrow> (Send 200 ''OK'', record_award now p wallet d1))"

text \<open>
  \<open>app.post('/shopify/orders-paid', ...)\<close>; \<open>now\<close> is \<open>new Date().toISOString()\<close>. The
  \<open>catch\<close> answers every throw with status 500.
\<close>

definition orders_paid :: "env \<Rightarrow> string \<Rightarrow> request \<Rightarrow> db \<Rightarrow> response \<times> db" where
  "orders_paid E now req d =
     (case verifyHmac E req of
        Inl err \<Rightarrow> (server_error, d)
      | Inr False \<Rightarrow> (Send 401 ''Invalid HMAC'', d)
      | Inr True \<Rightarrow>
          (case bind_e (getJson E req) (read_order E) of
             Inl err \<Rightarrow> (server_error, d)
           | Inr None \<Rightarrow> (Send 200 ''No customer'', d)
           | Inr (Some p) \<Rightarrow> apply_purchase now p d))"

section \<open>The balance query\<close>

text \<open>
  \<open>app.get('/wallet/by-email', ...)\<close>; the argument is \<open>req.query.email\<close>, a string when the
  query has one.
\<close>

definition failure :: "nat \<Rightarrow> string \<Rightarrow> response" where
  "failure status message =
     Json status (JObj [(''success'', JBool False), (''message'', JStr message)])"

definition wallet_by_email :: "string option \<Rightarrow> db \<Rightarrow> response \<times> db" where
  "wallet_by_email query_email d =
     (case query_email of
        None \<Rightarrow> (failure 400 ''email is required'', d)
      | Some e \<Rightarrow>
          if e = [] then (failure 400 ''email is required'', d)
          else
            (case maybeSingle (filter (\<lambda>u. u_email u = JStr e) (users d)) of
               Inl userError \<Rightarrow> (failure 500 ''User lookup failed'', d)
             | Inr None \<Rightarrow>
                 (Json 200 (JObj [(''success'', JBool True), (''email'', JStr e),
                    (''name'', JNull), (''hasWallet'', JBool False),
                    (''points'', JNum (Fin 0)), (''lifetime_points'', JNum (Fin 0))]), d)
             | Inr (Some user) \<Rightarrow>
                 (case maybeSingle (filter (\<lambda>w. w_user_id w = u_id user) (wallets d)) of
                    Inl walletError \<Rightarrow> (failure 500 ''Wallet lookup failed'', d)
                  | Inr wallet \<Rightarrow>
                      (Json 200 (JObj [(''success'', JBool True), (''email'', u_email user),
                         (''name'', JStr (u_name user)), (''hasWallet'', JBool (wallet \<noteq> None)),
                         (''points'',
                            JNum (case wallet of None \<Rightarrow> Fin 0
                                  | Some w \<Rightarrow> num_of_int (w_points w))),
                         (''lifetime_points'',
                            JNum (case wallet of None \<Rightarrow> Fin 0
                                  | Some w \<Rightarrow> num_of_int (w_lifetime_points w)))]), d))))"

section \<open>Observing the store\<close>

text \<open>
  The wallet of a customer, when the customer has one account and the account one wallet;
  the customer's current and lifetime totals, zero when there is no such wallet (what
  the balance query reports); and the shape the handler keeps: the customer id is a key
  of the users, an account has at most one wallet, and every wallet belongs to an
  account.
\<close>

definition wallet_of :: "string \<Rightarrow> db \<Rightarrow> wallet_row option" where
  "wallet_of cid d =
     (case filter (\<lambda>u. u_shopify_customer_id u = cid) (users d) of
        [u] \<Rightarrow> single (filter (\<lambda>w. w_user_id w = u_id u) (wallets d))
      | _ \<Rightarrow> None)"

definition balance_of :: "string \<Rightarrow> db \<Rightarrow> int \<times> int" where
  "balance_of cid d =
     (case wallet_of cid d of
        None \<Rightarrow> (0, 0)
      | Some w \<Rightarrow> (w_points w, w_lifetime_points w))"

definition store_ok :: "db \<Rightarrow> bool" where
  "store_ok d \<longleftrightarrow>
     distinct (map u_shopify_customer_id (users d)) \<and>
     distinct (map w_user_id (wallets d)) \<and>
     set (map w_user_id (wallets d)) \<subseteq> set (map u_id (users d))"

text \<open>
  The point award the handler computes for a request, when the request is authentic and
  its order is read as far as the store.
\<close>

definition award :: "env \<Rightarrow> request \<Rightarrow> jsnum option" where
  "award E req =
     (case verifyHmac E req of
        Inr True \<Rightarrow>
          (case bind_e (getJson E req) (read_order E) of
             Inr (Some p) \<Rightarrow> Some (points p)
           | _ \<Rightarrow> None)
      | _ \<Rightarrow> None)"

section \<open>Example data\<close>

text \<open>
  A stand-in for the libraries, for running the handlers on examples: its signature of a
  body is the key followed by the body, and its parser knows the bodies below.
\<close>

definition body_O1 :: string where
  \<open>body_O1 = ''{"id":"O1","total_price":"10.00","customer":{"id":"C1","email":"c1@example.com","first_name":"Ann","last_name":"Lee"}}''\<close>

definition order_O1 :: jsval where
  "order_O1 = JObj [(''id'', JStr ''O1''), (''total_price'', JStr ''10.00''),
     (''customer'', JObj [(''id'', JStr ''C1''), (''email'', JStr ''c1@example.com''),
        (''first_name'', JStr ''Ann''), (''last_name'', JStr ''Lee'')])]"

definition body_O2 :: string where
  \<open>body_O2 = ''{"id":"O2","total_price":"5.00","customer":{"id":"C1","email":"c1@example.com","first_name":"Ann","last_name":"Lee"}}''\<close>

definition order_O2 :: jsval where
  "order_O2 = JObj [(''id'', JStr ''O2''), (''total_price'', JStr ''5.00''),
     (''customer'', JObj [(''id'', JStr ''C1''), (''email'', JStr ''c1@example.com''),
        (''first_name'', JStr ''Ann''), (''last_name'', JStr ''Lee'')])]"

definition body_refund :: string where
  \<open>body_refund = ''{"id":"O3","total_price":"-5.00","customer":{"id":"C1","email":"c1@example.com","first_name":"Ann","last_name":"Lee"}}''\<close>

definition order_refund :: jsval where
  "order_refund = JObj [(''id'', JStr ''O3''), (''total_price'', JStr ''-5.00''),
     (''customer'', JObj [(''id'', JStr ''C1''), (''email'', JStr ''c1@example.com''),
        (''first_name'', JStr ''Ann''), (''last_name'', JStr ''Lee'')])]"

definition body_no_id :: string where
  \<open>body_no_id = ''{"id":"O7","total_price":"10.00","customer":{"email":"x@example.com"}}''\<close>

definition order_no_id :: jsval where
  "order_no_id = JObj [(''id'', JStr ''O7''), (''total_price'', JStr ''10.00''),
     (''customer'', JObj [(''email'', JStr ''x@example.com'')])]"

definition body_anonymous :: string where
  \<open>body_anonymous = ''{"id":"O9","total_price":"10.00"}''\<close>

definition order_anonymous :: jsval where
  "order_anonymous = JObj [(''id'', JStr ''O9''), (''total_price'', JStr ''10.00'')]"

definition body_empty_customer :: string where
  \<open>body_empty_customer = ''{"id":"O8","total_price":"10.00","customer":{}}''\<close>

definition order_empty_customer :: jsval where
  "order_empty_customer = JObj [(''id'', JStr ''O8''), (''total_price'', JStr ''10.00''),
     (''customer'', JObj [])]"

definition body_null :: string where
  "body_null = ''null''"

definition body_C2 :: string where
  \<open>body_C2 = ''{"id":"O4","total_price":"5.00","customer":{"id":"C2","email":"c1@example.com","first_name":"Ann","last_name":"Lee"}}''\<close>

definition order_C2 :: jsval where
  "order_C2 = JObj [(''id'', JStr ''O4''), (''total_price'', JStr ''5.00''),
     (''customer'', JObj [(''id'', JStr ''C2''), (''email'', JStr ''c1@example.com''),
        (''first_name'', JStr ''Ann''), (''last_name'', JStr ''Lee'')])]"

definition test_parse :: "string \<Rightarrow> jsval option" where
  "test_parse b =
     (if b = body_O1 then Some order_O1
      else if b = body_O2 then Some order_O2
      else if b = body_refund then Some order_refund
      else if b = body_no_id then Some order_no_id
      else if b = body_anonymous then Some order_anonymous
      else if b = body_empty_customer then Some order_empty_customer
      else if b = body_null then Some JNull
      else if b = body_C2 then Some order_C2
      else None)"

definition test_env :: env where
  "test_env = \<lparr>SHOPIFY_WEBHOOK_SECRET = Some ''shh'',
     hmac_sha256_base64 = (\<lambda>key data. key @ data),
     JSON_parse = test_parse, Number_toString = (\<lambda>a. [])\<rparr>"

definition signed :: "string \<Rightarrow> request" where
  "signed b = \<lparr>hmac_header = Some (''shh'' @ b), body = Some b\<rparr>"

definition empty_db :: db where
  "empty_db = \<lparr>users = [], wallets = [], wallet_transactions = []\<rparr>"

definition user_C1 :: user_row where
  "user_C1 = \<lparr>u_id = 1, u_shopify_customer_id = ''C1'', u_email = JStr ''c1@example.com'',
     u_name = ''Ann Lee''\<rparr>"

definition db_no_wallet :: db where
  "db_no_wallet = \<lparr>users = [user_C1], wallets = [], wallet_transactions = []\<rparr>"

definition wallet_30 :: wallet_row where
  "wallet_30 = \<lparr>w_id = 1, w_user_id = 1, w_points = 30, w_lifetime_points = 30,
     w_updated_at = Some ''2024-01-01T00:00:00.000Z''\<rparr>"

definition txn_O1 :: txn_row where
  "txn_O1 = \<lparr>t_wallet_id = 1, t_type = ''earn'', t_source = ''order'',
     t_shopify_order_id = ''O1'', t_points_change = 30, t_note = ''Points from order''\<rparr>"

definition db_after_O1 :: db where
  "db_after_O1 = \<lparr>users = [user_C1], wallets = [wallet_30], wallet_transactions = [txn_O1]\<rparr>"

definition purchase_O1 :: purchase where
  "purchase_O1 = \<lparr>shopifyCustomerId = ''C1'', email = JStr ''c1@example.com'',
     name = ''Ann Lee'', points = Fin 30, orderId = ''O1''\<rparr>"

definition wallet_new :: wallet_row where
  "wallet_new = \<lparr>w_id = 1, w_user_id = 1, w_points = 0, w_lifetime_points = 0,
     w_updated_at = None\<rparr>"

definition db_wallet_new :: db where
  "db_wallet_new = \<lparr>users = [user_C1], wallets = [wallet_new], wallet_transactions = []\<rparr>"

definition user_undefined :: user_row where
  "user_undefined = \<lparr>u_id = 1, u_shopify_customer_id = ''undefined'',
     u_email = JStr ''x@example.com'', u_name = []\<rparr>"

definition purchase_no_id :: purchase where
  "purchase_no_id = \<lparr>shopifyCustomerId = ''undefined'', email = JStr ''x@example.com'',
     name = [], points = Fin 30, orderId = ''O7''\<rparr>"

definition db_undefined_new :: db where
  "db_undefined_new = \<lparr>users = [user_undefined], wallets = [wallet_new],
     wallet_transactions = []\<rparr>"

definition purchase_O2 :: purchase where
  "purchase_O2 = \<lparr>shopifyCustomerId = ''C1'', email = JStr ''c1@example.com'',
     name = ''Ann Lee'', points = Fin 15, orderId = ''O2''\<rparr>"

definition wallet_45 :: wallet_row where
  "wallet_45 = \<lparr>w_id = 1, w_user_id = 1, w_points = 45, w_lifetime_points = 45,
     w_updated_at = Some ''2024-01-02T00:00:00.000Z''\<rparr>"

definition wallet_60 :: wallet_row where
  "wallet_60 = \<lparr>w_id = 1, w_user_id = 1, w_points = 60, w_lifetime_points = 60,
     w_updated_at = Some ''2024-01-02T00:00:00.000Z''\<rparr>"

definition purchase_refund :: purchase where
  "purchase_refund = \<lparr>shopifyCustomerId = ''C1'', email = JStr ''c1@example.com'',
     name = ''Ann Lee'', points = Fin (- 15), orderId = ''O3''\<rparr>"

definition wallet_overdrawn :: wallet_row where
  "wallet_overdrawn = \<lparr>w_id = 1, w_user_id = 1, w_points = - 15, w_lifetime_points = - 15,
     w_updated_at = Some ''2024-01-02T00:00:00.000Z''\<rparr>"

definition wallet_15 :: wallet_row where
  "wallet_15 = \<lparr>w_id = 1, w_user_id = 1, w_points = 15, w_lifetime_points = 15,
     w_updated_at = Some ''2024-01-02T00:00:00.000Z''\<rparr>"

definition purchase_empty_customer :: purchase where
  "purchase_empty_customer = \<lparr>shopifyCustomerId = ''undefined'', email = JUndefined,
     name = [], points = Fin 30, orderId = ''O8''\<rparr>"

definition user_nobody :: user_row where
  "user_nobody = \<lparr>u_id = 1, u_shopify_customer_id = ''undefined'', u_email = JNull,
     u_name = []\<rparr>"

definition txn_O8 :: txn_row where
  "txn_O8 = \<lparr>t_wallet_id = 1, t_type = ''earn'', t_source = ''order'',
     t_shopify_order_id = ''O8'', t_points_change = 30, t_note = ''Points from order''\<rparr>"

definition db_nobody :: db where
  "db_nobody = \<lparr>users = [user_nobody], wallets = [wallet_30], wallet_transactions = [txn_O8]\<rparr>"

definition purchase_C2 :: purchase where
  "purchase_C2 = \<lparr>shopifyCustomerId = ''C2'', email = JStr ''c1@example.com'',
     name = ''Ann Lee'', points = Fin 15, orderId = ''O4''\<rparr>"

definition user_C2 :: user_row where
  "user_C2 = \<lparr>u_id = 2, u_shopify_customer_id = ''C2'', u_email = JStr ''c1@example.com'',
     u_name = ''Ann Lee''\<rparr>"

definition wallet_C2_new :: wallet_row where
  "wallet_C2_new = \<lparr>w_id = 2, w_user_id = 2, w_points = 0, w_lifetime_points = 0,
     w_updated_at = None\<rparr>"

definition wallet_C2 :: wallet_row where
  "wallet_C2 = \<lparr>w_id = 2, w_user_id = 2, w_points = 15, w_lifetime_points = 15,
     w_updated_at = Some ''2024-01-02T00:00:00.000Z''\<rparr>"

definition txn_O4 :: txn_row where
  "txn_O4 = \<lparr>t_wallet_id = 2, t_type = ''earn'', t_source = ''order'',
     t_shopify_order_id = ''O4'', t_points_change = 15, t_note = ''Points from order''\<rparr>"

definition db_shared_email :: db where
  "db_shared_email = \<lparr>users = [user_C1, user_C2], wallets = [wallet_30, wallet_C2],
     wallet_transactions = [txn_O1, txn_O4]\<rparr>"

text \<open>An account with two wallets, as two first orders handled at the same time leave it.\<close>

definition wallet_second :: wallet_row where
  "wallet_second = \<lparr>w_id = 2, w_user_id = 1, w_points = 30, w_lifetime_points = 30,
     w_updated_at = Some ''2024-01-01T00:00:00.000Z''\<rparr>"

definition db_two_wallets :: db where
  "db_two_wallets = \<lparr>users = [user_C1], wallets = [wallet_30, wallet_second],
     wallet_transactions = [txn_O1]\<rparr>"

section \<open>Rounding to binary64\<close>

lemma round_half_even_of_int: "round_half_even (of_int n) = n"
  by (simp add: round_half_even_def)

lemma round_half_even_err: "\<bar>of_int (round_half_even x) - x\<bar> \<le> 1 / 2"
proof -
  have "of_int \<lfloor>x\<rfloor> \<le> x" "x < of_int \<lfloor>x\<rfloor> + 1" by linarith+
  then show ?thesis
    unfolding round_half_even_def by (auto simp: abs_le_iff)
qed

lemma flog2_ge1:
  assumes "1 \<le> x"
  shows "2 powi flog2 x \<le> x" and "x < 2 powi (flog2 x + 1)"
proof -
  let ?n = "\<lfloor>x\<rfloor>"
  have n: "0 < ?n" using assms by simp
  from bitlen_bounds [OF n]
  have lo: "2 ^ nat (bitlen ?n - 1) \<le> ?n" and hi: "?n < 2 ^ nat (bitlen ?n)" by simp_all
  have b1: "1 \<le> bitlen ?n" using n bitlen_eq_zero_iff [of ?n] bitlen_nonneg [of ?n] by linarith
  have e: "flog2 x = bitlen ?n - 1" using assms by (simp add: flog2_def)
  have "(2::rat) powi (bitlen ?n - 1) = of_int (2 ^ nat (bitlen ?n - 1))"
    using b1 by (simp add: power_int_nonneg_exp)
  also have "\<dots> \<le> of_int ?n" using lo by (simp only: of_int_le_iff)
  also have "\<dots> \<le> x" by simp
  finally show "2 powi flog2 x \<le> x" by (simp add: e)
  have "?n + 1 \<le> 2 ^ nat (bitlen ?n)" using hi by simp
  then have "(of_int (?n + 1) :: rat) \<le> of_int (2 ^ nat (bitlen ?n))" by (simp only: of_int_le_iff)
  moreover have "x < of_int (?n + 1)" by linarith
  moreover have "(2::rat) powi (bitlen ?n) = of_int (2 ^ nat (bitlen ?n))"
    using b1 by (simp add: power_int_nonneg_exp)
  ultimately show "x < 2 powi (flog2 x + 1)" by (simp add: e)
qed

lemma flog2_lt1:
  assumes "0 < x" "x < 1"
  shows "2 powi flog2 x \<le> x" and "x < 2 powi (flog2 x + 1)"
proof -
  let ?y = "1 / x"
  let ?m = "\<lceil>?y\<rceil> - 1"
  have y1: "1 < ?y" using assms by simp
  have m: "0 < ?m" using y1 by simp
  from bitlen_bounds [OF m]
  have lo: "2 ^ nat (bitlen ?m - 1) \<le> ?m" and hi: "?m < 2 ^ nat (bitlen ?m)" by simp_all
  have b1: "1 \<le> bitlen ?m" using m bitlen_eq_zero_iff [of ?m] bitlen_nonneg [of ?m] by linarith
  have e: "flog2 x = - bitlen ?m" using assms by (simp add: flog2_def)
  have my: "of_int ?m < ?y" by linarith
  have ym: "?y \<le> of_int (?m + 1)" by simp
  have "?m + 1 \<le> 2 ^ nat (bitlen ?m)" using hi by simp
  then have "(of_int (?m + 1) :: rat) \<le> of_int (2 ^ nat (bitlen ?m))" by (simp only: of_int_le_iff)
  with ym have "?y \<le> of_int (2 ^ nat (bitlen ?m))" by (rule order_trans)
  then have "?y \<le> 2 ^ nat (bitlen ?m)" by (simp only: of_int_power of_int_numeral)
  then have "1 / 2 ^ nat (bitlen ?m) \<le> x" using assms(1)
    by (simp add: field_simps)
  moreover have "(2::rat) powi (- bitlen ?m) = 1 / 2 ^ nat (bitlen ?m)"
    using b1 by (simp add: power_int_minus_divide power_int_nonneg_exp)
  ultimately show "2 powi flog2 x \<le> x" by (simp add: e)
  have "(of_int (2 ^ nat (bitlen ?m - 1)) :: rat) \<le> of_int ?m" using lo by (simp only: of_int_le_iff)
  then have "of_int (2 ^ nat (bitlen ?m - 1)) < ?y" using my by (rule le_less_trans)
  then have "2 ^ nat (bitlen ?m - 1) < ?y" by (simp only: of_int_power of_int_numeral)
  then have "x < 1 / 2 ^ nat (bitlen ?m - 1)" using assms(1)
    by (simp add: field_simps)
  moreover have "(2::rat) powi (- bitlen ?m + 1) = 1 / 2 ^ nat (bitlen ?m - 1)"
  proof -
    have "- bitlen ?m + 1 = - (bitlen ?m - 1)" by simp
    then show ?thesis using b1
      by (simp only: power_int_minus_divide) (simp add: power_int_nonneg_exp)
  qed
  ultimately show "x < 2 powi (flog2 x + 1)" by (simp add: e)
qed

lemma flog2_bounds:
  assumes "0 < x"
  shows "2 powi flog2 x \<le> x" and "x < 2 powi (flog2 x + 1)"
  using assms flog2_ge1 [of x] flog2_lt1 [of x] by (cases "1 \<le> x"; simp)+

lemma pow2_less_iff: "(2::rat) powi a < 2 powi b \<longleftrightarrow> a < b"
proof
  assume "(2::rat) powi a < 2 powi b"
  show "a < b"
  proof (rule ccontr)
    assume "\<not> a < b"
    then have "(2::rat) powi b \<le> 2 powi a" by (intro power_int_increasing) simp_all
    with \<open>(2::rat) powi a < 2 powi b\<close> show False by simp
  qed
next
  assume "a < b"
  then show "(2::rat) powi a < 2 powi b" by (intro power_int_strict_increasing) simp_all
qed

lemma pow2_le_iff: "(2::rat) powi a \<le> 2 powi b \<longleftrightarrow> a \<le> b"
  using pow2_less_iff [of b a] by (simp add: not_less [symmetric])

lemma flog2_unique:
  assumes "2 powi e \<le> x" "x < 2 powi (e + 1)"
  shows "flog2 x = e"
proof -
  have x: "0 < x" using assms(1) by (rule less_le_trans [rotated]) simp
  note b = flog2_bounds [OF x]
  have "(2::rat) powi e < 2 powi (flog2 x + 1)" using assms(1) b(2) by simp
  then have 1: "e < flog2 x + 1" by (simp only: pow2_less_iff)
  have "(2::rat) powi flog2 x < 2 powi (e + 1)" using assms(2) b(1) by simp
  then have 2: "flog2 x < e + 1" by (simp only: pow2_less_iff)
  from 1 2 show ?thesis by simp
qed

lemma round64_pos_err:
  assumes "0 < a"
  shows "\<bar>round64_pos a - a\<bar> \<le> 2 powi (max (flog2 a) (- 1022) - 53)"
proof -
  define q :: rat where "q = 2 powi (max (flog2 a) (- 1022) - 52)"
  have q: "0 < q" by (simp add: q_def)
  have "round64_pos a - a = (of_int (round_half_even (a / q)) - a / q) * q"
    using q by (simp add: round64_pos_def q_def [symmetric] algebra_simps)
  then have "\<bar>round64_pos a - a\<bar> = \<bar>of_int (round_half_even (a / q)) - a / q\<bar> * q"
    using q by (simp add: abs_mult)
  also have "\<dots> \<le> 1 / 2 * q"
    using q round_half_even_err [of "a / q"] by (intro mult_right_mono) simp_all
  also have "\<dots> = 2 powi (max (flog2 a) (- 1022) - 53)"
  proof -
    have "q = 2 powi (max (flog2 a) (- 1022) - 53) * 2"
      unfolding q_def by (simp add: power_int_diff)
    then show ?thesis by simp
  qed
  finally show ?thesis .
qed

lemma round64_pos_rel_err:
  assumes "0 < a" "- 1022 \<le> flog2 a"
  shows "\<bar>round64_pos a - a\<bar> \<le> a / 2 ^ 53"
proof -
  have "max (flog2 a) (- 1022) = flog2 a" using assms(2) by simp
  with round64_pos_err [OF assms(1)]
  have "\<bar>round64_pos a - a\<bar> \<le> 2 powi (flog2 a - 53)" by simp
  also have "\<dots> = 2 powi flog2 a / 2 ^ 53"
    by (simp add: power_int_diff)
  also have "\<dots> \<le> a / 2 ^ 53"
    using flog2_bounds(1) [OF assms(1)] by (simp add: divide_right_mono)
  finally show ?thesis .
qed

lemma flog2_lower:
  assumes "2 powi e \<le> a"
  shows "e \<le> flog2 a"
proof -
  have a: "0 < a" using assms by (rule less_le_trans [rotated]) simp
  have "(2::rat) powi e < 2 powi (flog2 a + 1)"
    using assms flog2_bounds(2) [OF a] by simp
  then have "e < flog2 a + 1" by (simp only: pow2_less_iff)
  then show ?thesis by simp
qed

lemma flog2_upper:
  assumes "0 < a" "a < 2 powi e"
  shows "flog2 a < e"
proof -
  have "(2::rat) powi flog2 a < 2 powi e"
    using assms flog2_bounds(1) [OF assms(1)] by simp
  then show ?thesis by (simp only: pow2_less_iff)
qed

lemma round64_pos_exact:
  assumes "0 < a" and "a / 2 powi (max (flog2 a) (- 1022) - 52) = of_int k"
  shows "round64_pos a = a"
proof -
  have "round64_pos a = of_int k * 2 powi (max (flog2 a) (- 1022) - 52)"
    unfolding round64_pos_def assms(2) by (simp only: round_half_even_of_int)
  also have "\<dots> = a" unfolding assms(2) [symmetric] by simp
  finally show ?thesis .
qed

lemma round64_pos_int:
  assumes "0 < n" "n \<le> 2 ^ 53"
  shows "round64_pos (of_int n) = of_int n"
proof -
  let ?a = "of_int n :: rat"
  have a: "0 < ?a" using assms by simp
  have "(2::rat) powi 0 \<le> ?a" using assms by simp
  then have e0: "0 \<le> flog2 ?a" by (rule flog2_lower)
  then have m: "max (flog2 ?a) (- 1022) = flog2 ?a" by simp
  have "?a < 2 powi 54" using assms by simp
  with a have e54: "flog2 ?a < 54" by (rule flog2_upper)
  show ?thesis
  proof (cases "flog2 ?a \<le> 52")
    case True
    then have "(2::rat) powi (flog2 ?a - 52) = 1 / 2 ^ nat (52 - flog2 ?a)"
      by (simp add: power_int_def power_inverse field_simps)
    then have "?a / 2 powi (max (flog2 ?a) (- 1022) - 52) = of_int (n * 2 ^ nat (52 - flog2 ?a))"
      by (simp add: m)
    with a show ?thesis by (rule round64_pos_exact)
  next
    case False
    with e54 have e: "flog2 ?a = 53" by simp
    have "(2::rat) powi 53 \<le> ?a" using flog2_bounds(1) [OF a] by (simp only: e)
    then have "(of_int (2 ^ 53) :: rat) \<le> of_int n" by simp
    then have "2 ^ 53 \<le> n" by (simp only: of_int_le_iff)
    with assms have n: "n = 2 ^ 53" by simp
    have "?a / 2 powi (max (flog2 ?a) (- 1022) - 52) = of_int (2 ^ 52)"
      by (simp add: m e) (simp add: n)
    with a show ?thesis by (rule round64_pos_exact)
  qed
qed

lemma round64_int:
  assumes "\<bar>n\<bar> \<le> 2 ^ 53"
  shows "round64 (of_int n) = Fin (of_int n)"
proof -
  consider "n = 0" | "0 < n" | "n < 0" by linarith
  then show ?thesis
  proof cases
    case 1
    then show ?thesis by (simp add: round64_def)
  next
    case 2
    with assms have "round64_pos (of_int n) = of_int n" by (intro round64_pos_int) simp_all
    moreover have "(of_int n :: rat) < 2 ^ 1024"
    proof -
      have "(of_int n :: rat) \<le> of_int (2 ^ 53)" using assms 2 by simp
      then show ?thesis by simp
    qed
    ultimately show ?thesis using 2 by (simp add: round64_def)
  next
    case 3
    with assms have "round64_pos (of_int (- n)) = of_int (- n)" by (intro round64_pos_int) simp_all
    then have r: "round64_pos (- of_int n) = - of_int n" by simp
    moreover have "(- of_int n :: rat) < 2 ^ 1024"
    proof -
      have "(of_int (- n) :: rat) \<le> of_int (2 ^ 53)" using assms 3 by simp
      then show ?thesis by simp
    qed
    ultimately show ?thesis using 3 by (simp add: round64_def)
  qed
qed

lemma round64_mid:
  assumes "1 / 100 \<le> a" "a < 10 ^ 15"
  shows "round64 a = Fin (round64_pos a)" and "\<bar>round64_pos a - a\<bar> \<le> a / 2 ^ 53"
proof -
  have a: "0 < a" using assms(1) by simp
  have "(2::rat) powi (- 7) \<le> a" using assms(1) by (simp add: power_int_minus_divide)
  then have "- 7 \<le> flog2 a" by (rule flog2_lower)
  then have "- 1022 \<le> flog2 a" by simp
  with a show e: "\<bar>round64_pos a - a\<bar> \<le> a / 2 ^ 53" by (rule round64_pos_rel_err)
  then have "round64_pos a \<le> a + a / 2 ^ 53" unfolding abs_le_iff by linarith
  with assms(2) have "round64_pos a < 2 ^ 1024" by simp
  with a show "round64 a = Fin (round64_pos a)" by (simp add: round64_def)
qed

lemma dvd_100_triple: "(100::nat) dvd 3 * k \<Longrightarrow> 100 dvd k"
proof -
  assume h: "(100::nat) dvd 3 * k"
  have "coprime (100::nat) 3" by (simp add: coprime_iff_gcd_eq_1 gcd_nat.simps)
  then show "100 dvd k" using h by (simp add: coprime_dvd_mult_right_iff)
qed

lemma neg_div_100:
  fixes m n r :: int
  assumes "m = 100 * n + r" "0 < r" "r < 100"
  shows "(- m) div 100 = - n - 1"
proof -
  have "- m = 100 * (- n - 1) + (100 - r)" using assms(1) by simp
  moreover have "0 \<le> 100 - r" "100 - r < 100" using assms(2,3) by simp_all
  ultimately show ?thesis
    by (metis add.commute div_mult_self2 div_pos_pos_trivial add.left_neutral zero_neq_numeral)
qed

lemma cents_points_exact:
  assumes "k < 10 ^ 15"
  shows "\<exists>d p. round64 (of_nat k / 100) = Fin d \<and> round64 (d * 3) = Fin p
           \<and> \<lfloor>p\<rfloor> = int (3 * k) div 100 \<and> \<lfloor>- p\<rfloor> = (- int (3 * k)) div 100"
proof (cases "100 dvd k")
  case True
  then obtain j where k: "k = 100 * j" by (elim dvdE)
  have j: "j < 10 ^ 13" using assms by (simp add: k)
  have 1: "round64 (of_nat k / 100) = Fin (of_int (int j))"
  proof -
    have "of_nat k / 100 = (of_int (int j) :: rat)" by (simp add: k)
    moreover have "\<bar>int j\<bar> \<le> 2 ^ 53" using j by simp
    ultimately show ?thesis by (simp only: round64_int)
  qed
  have 2: "round64 (of_int (int j) * 3) = Fin (of_int (int (3 * j)))"
  proof -
    have "of_int (int j) * 3 = (of_int (int (3 * j)) :: rat)" by simp
    moreover have "\<bar>int (3 * j)\<bar> \<le> 2 ^ 53" using j by simp
    ultimately show ?thesis by (simp only: round64_int)
  qed
  have "\<lfloor>of_int (int (3 * j)) :: rat\<rfloor> = int (3 * j)" by (rule floor_of_int)
  moreover have "int (3 * j) = int (3 * k) div 100" by (simp add: k)
  ultimately have 3: "\<lfloor>of_int (int (3 * j)) :: rat\<rfloor> = int (3 * k) div 100" by (rule trans)
  have "- (of_int (int (3 * j)) :: rat) = of_int (- int (3 * j))" by simp
  then have "\<lfloor>- of_int (int (3 * j)) :: rat\<rfloor> = - int (3 * j)" by (simp only: floor_of_int)
  moreover have "- int (3 * j) = (- int (3 * k)) div 100" by (simp add: k)
  ultimately have 4: "\<lfloor>- of_int (int (3 * j)) :: rat\<rfloor> = (- int (3 * k)) div 100"
    by (rule trans)
  from 1 2 3 4 show ?thesis by blast
next
  case False
  define a :: rat where "a = of_nat k / 100"
  define n where "n = 3 * k div 100"
  define r where "r = 3 * k mod 100"
  have k0: "0 < k" using False by (cases k) simp_all
  have a1: "1 / 100 \<le> a" using k0 by (simp add: a_def)
  have a2: "a < 10 ^ 13"
  proof -
    have "(of_nat k :: rat) < of_nat (10 ^ 15)" using assms by (simp only: of_nat_less_iff)
    then show ?thesis by (simp add: a_def)
  qed
  then have a3: "a < 10 ^ 15" by simp
  define d where "d = round64_pos a"
  note ra = round64_mid [OF a1 a3, folded d_def]
  have d_lo: "a - a / 2 ^ 53 \<le> d" and d_hi: "d \<le> a + a / 2 ^ 53"
    using ra(2) unfolding abs_le_iff by linarith+
  have d1: "1 / 100 \<le> d * 3" using d_lo a1 by simp
  have d2: "d * 3 < 10 ^ 15" using d_hi a2 by simp
  define p where "p = round64_pos (d * 3)"
  note rd = round64_mid [OF d1 d2, folded p_def]
  have p_lo: "d * 3 - d * 3 / 2 ^ 53 \<le> p" and p_hi: "p \<le> d * 3 + d * 3 / 2 ^ 53"
    using rd(2) unfolding abs_le_iff by linarith+
  have r0: "r \<noteq> 0" using False dvd_100_triple [of k] by (auto simp: r_def dvd_eq_mod_eq_0)
  have r99: "r \<le> 99" unfolding r_def by (simp add: less_Suc_eq_le [symmetric])
  have "3 * k = 100 * n + r" by (simp add: n_def r_def)
  then have "3 * (of_nat k :: rat) = 100 * of_nat n + of_nat r"
    by (metis of_nat_add of_nat_mult of_nat_numeral)
  then have a_eq: "a * 3 = of_nat n + of_nat r / 100" by (simp add: a_def)
  have "(of_nat 1 :: rat) \<le> of_nat r" using r0 by (simp only: of_nat_le_iff)
  then have r_lo: "(1::rat) \<le> of_nat r" by simp
  have "(of_nat r :: rat) \<le> of_nat 99" using r99 by (simp only: of_nat_le_iff)
  then have r_hi: "(of_nat r :: rat) \<le> 99" by simp
  have lo: "of_int (int n) < p" using p_lo d_lo a_eq a2 r_lo by simp
  have hi: "p < of_int (int n) + 1" using p_hi d_hi a_eq a2 r_hi by simp
  have fl: "\<lfloor>p\<rfloor> = int n" using lo hi by (intro floor_unique) simp_all
  have fn: "\<lfloor>- p\<rfloor> = - int n - 1" using lo hi by (intro floor_unique) simp_all
  have n_div: "int n = int (3 * k) div 100" by (simp add: n_def zdiv_int)
  have "int (3 * k) = 100 * int n + int r"
    using \<open>3 * k = 100 * n + r\<close> by (simp only: of_nat_add of_nat_mult of_nat_numeral)
  moreover have "0 < int r" "int r < 100" using r0 r99 by simp_all
  ultimately have "(- int (3 * k)) div 100 = - int n - 1" by (rule neg_div_100)
  then have n_neg: "- int n - 1 = (- int (3 * k)) div 100" by (rule sym)
  have 1: "round64 (of_nat k / 100) = Fin d" using ra(1) by (simp only: a_def)
  have 3: "\<lfloor>p\<rfloor> = int (3 * k) div 100" using fl n_div by (rule trans)
  have 4: "\<lfloor>- p\<rfloor> = (- int (3 * k)) div 100" using fn n_neg by (rule trans)
  from 1 rd(1) 3 4 show ?thesis by blast
qed

section \<open>Reading decimal amounts\<close>

lemma round64_neg: "round64 (- x) = js_neg (round64 x)"
  by (cases "x = 0"; cases "0 < x") (auto simp: round64_def)

lemma ws_seqs_head:
  assumes "q \<in> set ws_seqs"
  shows "q \<noteq> [] \<and> hd q \<in> {9, 10, 11, 12, 13, 32, 194, 225, 226, 227, 239}"
  using assms by (auto simp: ws_seqs_def)

lemma ws_len_none:
  assumes "s \<noteq> []" and "of_char (hd s) \<notin> {9, 10, 11, 12, 13, 32, 194, 225, 226, 227, 239 :: nat}"
  shows "ws_len ws_seqs s = 0"
proof -
  have "\<not> take (length q) (map of_char s) = q" if "q \<in> set ws_seqs" for q
  proof
    assume eq: "take (length q) (map of_char s) = q"
    from ws_seqs_head [OF that] have q: "q \<noteq> []"
      and h: "hd q \<in> {9, 10, 11, 12, 13, 32, 194, 225, 226, 227, 239}" by simp_all
    from q have "0 < length q" by simp
    then have "hd (take (length q) (map of_char s)) = hd (map of_char s)"
      by (cases "length q") simp_all
    with arg_cong [OF eq, of hd] have "hd q = hd (map of_char s)" by (rule trans [OF sym])
    then have "hd q = of_char (hd s)" using assms(1) by (simp add: hd_map)
    with h assms(2) show False by simp
  qed
  then have "filter (\<lambda>q. take (length q) (map of_char s) = q) ws_seqs = []"
    by (simp add: filter_empty_conv)
  then show ?thesis by (simp add: ws_len_def)
qed

lemma trim_start_none:
  assumes "s \<noteq> []" and "of_char (hd s) \<notin> {9, 10, 11, 12, 13, 32, 194, 225, 226, 227, 239 :: nat}"
  shows "trim_start s = s"
  using ws_len_none [OF assms] by (simp add: trim_start_def trim_start_with.simps)

lemma is_digit_code: "is_digit c \<Longrightarrow> 48 \<le> (of_char c :: nat) \<and> (of_char c :: nat) \<le> 57"
  by (auto simp: is_digit_def)

lemma not_digit_dot [simp]: "\<not> is_digit CHR ''.''"
  by (simp add: is_digit_def)

lemma unsigned_literal_decimal:
  assumes "ip \<noteq> []" and "\<forall>c \<in> set ip. is_digit c" and "\<forall>c \<in> set fp. is_digit c"
  shows "unsigned_literal (ip @ ''.'' @ fp)
           = round64 (of_nat (dec (ip @ fp)) * 10 powi (- int (length fp)))"
proof -
  let ?s = "ip @ ''.'' @ fp"
  have tw: "takeWhile is_digit ?s = ip"
    using assms(2) by (simp add: takeWhile_append2)
  have dw: "dropWhile is_digit ?s = ''.'' @ fp"
    using assms(2) by (simp add: dropWhile_append2)
  have twf: "takeWhile is_digit fp = fp" using assms(3) by (simp add: takeWhile_eq_all_conv)
  have dwf: "dropWhile is_digit fp = []" using assms(3) by simp
  have "is_digit (hd ?s)" using assms(1,2) by (cases ip) simp_all
  moreover have "\<not> is_digit CHR ''I''" by (simp add: is_digit_def)
  ultimately have "hd ?s \<noteq> CHR ''I''" by auto
  then have inf: "take 8 ?s \<noteq> ''Infinity''"
    using assms(1) by (cases ip) auto
  show ?thesis
    unfolding unsigned_literal_def
    by (simp only: inf if_False tw dw Let_def) (simp add: twf dwf assms(1) exponent_part_def)
qed

lemma parseFloat_str_decimal:
  assumes "ip \<noteq> []" and "\<forall>c \<in> set ip. is_digit c" and "\<forall>c \<in> set fp. is_digit c"
  shows "parseFloat_str (ip @ ''.'' @ fp)
           = round64 (of_nat (dec (ip @ fp)) * 10 powi (- int (length fp)))"
    and "parseFloat_str (''-'' @ ip @ ''.'' @ fp)
           = js_neg (round64 (of_nat (dec (ip @ fp)) * 10 powi (- int (length fp))))"
proof -
  obtain c cs where ip: "ip = c # cs" using assms(1) by (cases ip) auto
  then have c: "is_digit c" using assms(2) by simp
  have 1: "trim_start (ip @ ''.'' @ fp) = ip @ ''.'' @ fp"
    using is_digit_code [OF c] by (intro trim_start_none) (auto simp: ip)
  have 2: "trim_start (''-'' @ ip @ ''.'' @ fp) = ''-'' @ ip @ ''.'' @ fp"
    by (intro trim_start_none) simp_all
  have 3: "c \<noteq> CHR ''-''" "c \<noteq> CHR ''+''" using c by (auto simp: is_digit_def)
  show "parseFloat_str (ip @ ''.'' @ fp)
           = round64 (of_nat (dec (ip @ fp)) * 10 powi (- int (length fp)))"
    unfolding parseFloat_str_def 1 Let_def using 3 unsigned_literal_decimal [OF assms]
    by (simp add: ip)
  show "parseFloat_str (''-'' @ ip @ ''.'' @ fp)
           = js_neg (round64 (of_nat (dec (ip @ fp)) * 10 powi (- int (length fp))))"
    unfolding parseFloat_str_def 2 Let_def using unsigned_literal_decimal [OF assms]
    by simp
qed

lemma calcPoints_str:
  assumes "parseFloat_str s = Fin x" and "round64 (x * 3) = Fin y"
  shows "calcPoints E (JStr s) = Inr (Fin (of_int \<lfloor>y\<rfloor>))"
proof (cases "x = 0")
  case True
  with assms(2) have "y = 0" by (simp add: round64_def)
  with True assms(1) show ?thesis
    by (simp add: calcPoints_def parseFloat_def bind_e_def round64_def)
next
  case False
  with assms show ?thesis
    by (simp add: calcPoints_def parseFloat_def bind_e_def)
qed

lemma calcPoints_decimal:
  assumes "ip \<noteq> []" and "\<forall>c \<in> set (ip @ fp). is_digit c" and "length fp = 2"
    and "dec (ip @ fp) < 10 ^ 15"
  shows "calcPoints E (JStr (ip @ ''.'' @ fp))
           = Inr (Fin (of_int (int (3 * dec (ip @ fp)) div 100)))"
    and "calcPoints E (JStr (''-'' @ ip @ ''.'' @ fp))
           = Inr (Fin (of_int ((- int (3 * dec (ip @ fp))) div 100)))"
proof -
  let ?k = "dec (ip @ fp)"
  have dig: "\<forall>c \<in> set ip. is_digit c" "\<forall>c \<in> set fp. is_digit c" using assms(2) by simp_all
  from cents_points_exact [OF assms(4)] obtain d p where
    d: "round64 (of_nat ?k / 100) = Fin d" and p: "round64 (d * 3) = Fin p"
    and fl: "\<lfloor>p\<rfloor> = int (3 * ?k) div 100" and fn: "\<lfloor>- p\<rfloor> = (- int (3 * ?k)) div 100"
    by blast
  have val: "of_nat ?k * 10 powi (- int (length fp)) = (of_nat ?k / 100 :: rat)"
    by (simp add: assms(3) power_int_minus_divide)
  have pos: "parseFloat_str (ip @ ''.'' @ fp) = Fin d"
    using parseFloat_str_decimal(1) [OF assms(1) dig] by (simp only: val d)
  have neg: "parseFloat_str (''-'' @ ip @ ''.'' @ fp) = Fin (- d)"
    using parseFloat_str_decimal(2) [OF assms(1) dig] by (simp only: val d js_neg.simps)
  have np: "round64 (- (d * 3)) = Fin (- p)"
    using round64_neg [of "d * 3"] by (simp only: p js_neg.simps)
  show "calcPoints E (JStr (ip @ ''.'' @ fp))
           = Inr (Fin (of_int (int (3 * dec (ip @ fp)) div 100)))"
    using calcPoints_str [OF pos p, of E] by (simp only: fl)
  have "- d * 3 = - (d * 3)" by simp
  with np have np': "round64 (- d * 3) = Fin (- p)" by simp
  show "calcPoints E (JStr (''-'' @ ip @ ''.'' @ fp))
           = Inr (Fin (of_int ((- int (3 * dec (ip @ fp))) div 100)))"
    using calcPoints_str [OF neg np', of E] by (simp only: fn)
qed

lemma calcPoints_NaN:
  assumes "parseFloat E v = Inr NaN"
  shows "calcPoints E v = Inr (Fin 0)"
  using assms by (simp add: calcPoints_def bind_e_def round64_def)

lemma calcPoints_zero: "calcPoints E (JStr ''0'') = Inr (Fin 0)"
proof -
  have "trim_start ''0'' = ''0''" by (intro trim_start_none) simp_all
  then have "parseFloat_str ''0'' = Fin 0"
    by (simp add: parseFloat_str_def unsigned_literal_def is_digit_def dec_def
        exponent_part_def round64_def)
  then show ?thesis
    by (simp add: calcPoints_def parseFloat_def bind_e_def round64_def)
qed

lemma parseFloat_abc: "parseFloat E (JStr ''abc'') = Inr NaN"
proof -
  have "trim_start ''abc'' = ''abc''" by (intro trim_start_none) simp_all
  then have "parseFloat_str ''abc'' = NaN"
    by (simp add: parseFloat_str_def unsigned_literal_def is_digit_def)
  then show ?thesis by (simp add: parseFloat_def bind_e_def)
qed

lemma is_digit_simps [simp]:
  "is_digit CHR ''0''" "is_digit CHR ''1''" "is_digit CHR ''2''" "is_digit CHR ''3''"
  "is_digit CHR ''4''" "is_digit CHR ''5''" "is_digit CHR ''6''" "is_digit CHR ''7''"
  "is_digit CHR ''8''" "is_digit CHR ''9''"
  by (simp_all add: is_digit_def)

section \<open>The store and the handlers\<close>

lemma num_of_int_safe:
  "\<bar>n\<bar> \<le> 2 ^ 53 \<Longrightarrow> num_of_int n = Fin (of_int n)"
  by (simp add: num_of_int_def round64_int)

lemma wallet_by_email_no_write: "snd (wallet_by_email q d) = d"
  by (simp add: wallet_by_email_def maybeSingle_def split: option.splits list.splits)

lemma test_parse_bodies:
  "test_parse body_O1 = Some order_O1"
  "test_parse body_O2 = Some order_O2"
  "test_parse body_refund = Some order_refund"
  "test_parse body_no_id = Some order_no_id"
  "test_parse body_anonymous = Some order_anonymous"
  "test_parse body_empty_customer = Some order_empty_customer"
  "test_parse body_null = Some JNull"
  "test_parse body_C2 = Some order_C2"
  by (simp_all add: test_parse_def body_O1_def body_O2_def body_refund_def body_no_id_def
      body_anonymous_def body_empty_customer_def body_null_def body_C2_def)

lemma int_column_int: "int_column (Fin (of_int n)) = Some n"
  by (simp add: int_column_def)

lemma js_add_safe:
  assumes "\<bar>a\<bar> \<le> 2 ^ 53" and "\<bar>a + k\<bar> \<le> 2 ^ 53"
  shows "js_add (num_of_int a) (Fin (of_int k)) = Fin (of_int (a + k))"
proof -
  have "js_add (num_of_int a) (Fin (of_int k)) = round64 (of_int a + of_int k)"
    using assms(1) by (simp add: num_of_int_safe)
  also have "of_int a + of_int k = (of_int (a + k) :: rat)" by simp
  finally show ?thesis using assms(2) by (simp only: round64_int)
qed

lemma column_sum:
  assumes "\<bar>a\<bar> \<le> 2 ^ 53" and "\<bar>a + k\<bar> \<le> 2 ^ 53"
  shows "int_column (js_add (num_of_int a) (Fin (of_int k))) = Some (a + k)"
  by (simp only: js_add_safe [OF assms] int_column_int)

lemma single_Some: "single xs = Some x \<longleftrightarrow> xs = [x]"
  by (auto simp: single_def split: list.splits)

lemma single_None: "single xs = None \<longleftrightarrow> length xs \<noteq> 1"
  by (auto simp: single_def split: list.splits)

lemma record_award_exact:
  assumes "points p = Fin (of_int k)"
    and "\<bar>w_points w\<bar> \<le> 2 ^ 53" and "\<bar>w_points w + k\<bar> \<le> 2 ^ 53"
    and "\<bar>w_lifetime_points w\<bar> \<le> 2 ^ 53" and "\<bar>w_lifetime_points w + k\<bar> \<le> 2 ^ 53"
  shows "record_award now p w d =
     d\<lparr>wallet_transactions := wallet_transactions d @
          [\<lparr>t_wallet_id = w_id w, t_type = ''earn'', t_source = ''order'',
            t_shopify_order_id = orderId p, t_points_change = k,
            t_note = ''Points from order''\<rparr>],
        wallets := map (\<lambda>x. if w_id x = w_id w
                       then x\<lparr>w_points := w_points w + k,
                              w_lifetime_points := w_lifetime_points w + k,
                              w_updated_at := Some now\<rparr>
                       else x) (wallets d)\<rparr>"
  using assms
  by (simp add: record_award_def insert_transaction_def update_wallet_def column_sum
      int_column_int Let_def)

lemma orders_paid_purchase:
  assumes "verifyHmac E req = Inr True" and "getJson E req = Inr order"
    and "read_order E order = Inr (Some p)"
  shows "orders_paid E now req d = apply_purchase now p d"
  using assms by (simp add: orders_paid_def bind_e_def)

lemma resolve_wallet_member:
  assumes "resolve_wallet p d = (Some w, d1)"
  shows "w \<in> set (wallets d1)"
proof -
  obtain rows us where up: "upsert_user (shopifyCustomerId p) (email p) (name p) (users d) = (rows, us)"
    by (cases "upsert_user (shopifyCustomerId p) (email p) (name p) (users d)")
  show ?thesis
  proof (cases "single rows")
    case None
    with assms up show ?thesis by (simp add: resolve_wallet_def)
  next
    case (Some user)
    show ?thesis
    proof (cases "single (filter (\<lambda>w. w_user_id w = u_id user) (wallets d))")
      case None
      with assms up Some show ?thesis
        by (auto simp: resolve_wallet_def insert_wallet_def single_def Let_def)
    next
      case (Some wallet)
      then have "filter (\<lambda>w. w_user_id w = u_id user) (wallets d) = [wallet]"
        by (simp add: single_Some)
      then have "wallet \<in> set (filter (\<lambda>w. w_user_id w = u_id user) (wallets d))" by simp
      then have "wallet \<in> set (wallets d)" by simp
      with assms up Some \<open>single rows = Some user\<close> show ?thesis
        by (auto simp: resolve_wallet_def)
    qed
  qed
qed

lemma trim_Ann_Lee: "trim ''Ann Lee'' = ''Ann Lee''"
  by code_simp

lemma calcPoints_10: "calcPoints E (JStr ''10.00'') = Inr (Fin 30)"
  using calcPoints_decimal(1) [of "''10''" "''00''" E] by (simp add: dec_def)

lemma verify_signed: "verifyHmac test_env (signed b) = Inr True"
  by (simp add: verifyHmac_def test_env_def signed_def)

lemma parse_signed:
  "getJson test_env (signed b) = (case test_parse b of None \<Rightarrow> Inl SyntaxError | Some v \<Rightarrow> Inr v)"
  by (simp add: getJson_def test_env_def signed_def)

lemma parse_O1: "getJson test_env (signed body_O1) = Inr order_O1"
  by (simp add: parse_signed test_parse_bodies)

lemma read_order_O1: "read_order test_env order_O1 = Inr (Some purchase_O1)"
  by (simp add: read_order_def order_O1_def bind_e_def calcPoints_10 trim_Ann_Lee
      purchase_O1_def)

lemma resolve_empty: "resolve_wallet purchase_O1 empty_db = (Some wallet_new, db_wallet_new)"
  by (simp add: resolve_wallet_def purchase_O1_def empty_db_def upsert_user_def single_def
      insert_wallet_def fresh_id_def wallet_new_def db_wallet_new_def user_C1_def Let_def)

lemma record_award_user_ids:
  "map w_user_id (wallets (record_award now p w d)) = map w_user_id (wallets d)"
  by (auto simp: record_award_def update_wallet_def Let_def o_def if_distrib [of w_user_id]
      split: option.splits)

lemma record_award_users: "users (record_award now p w d) = users d"
  by (simp add: record_award_def)

lemma filter_by_image:
  "map f (filter (\<lambda>x. f x = v) xs) = filter (\<lambda>y. y = v) (map f xs)"
  by (induction xs) auto

lemma count_by_image:
  "length (filter (\<lambda>x. f x = v) xs) = length (filter (\<lambda>y. y = v) (map f xs))"
  using filter_by_image [of f v xs] by (metis length_map)

lemma upsert_empty:
  "upsert_user (shopifyCustomerId purchase_O1) (email purchase_O1) (name purchase_O1)
     (users empty_db) = ([user_C1], [user_C1])"
  by (simp add: upsert_user_def purchase_O1_def empty_db_def user_C1_def fresh_id_def Let_def)

lemma upsert_user_rows:
  assumes "upsert_user c e n us = (rows, us')" and "u \<in> set rows"
  shows "u \<in> set us' \<and> u_shopify_customer_id u = c"
proof (cases "\<exists>u \<in> set us. u_shopify_customer_id u = c")
  case True
  with assms(1) have "rows = filter (\<lambda>u. u_shopify_customer_id u = c) us'"
    by (auto simp: upsert_user_def Let_def)
  with assms(2) show ?thesis by simp
next
  case False
  with assms show ?thesis by (auto simp: upsert_user_def Let_def)
qed

lemma upsert_user_key_present:
  assumes "upsert_user c e n us = (rows, us')"
  shows "\<exists>u \<in> set us'. u_shopify_customer_id u = c"
proof (cases "\<exists>u \<in> set us. u_shopify_customer_id u = c")
  case True
  then obtain u where u: "u \<in> set us" "u_shopify_customer_id u = c" by blast
  define f :: "user_row \<Rightarrow> user_row" where "f = (\<lambda>u. if u_shopify_customer_id u = c
      then u\<lparr>u_email := (if e = JUndefined then u_email u else e), u_name := n\<rparr> else u)"
  from assms True have "us' = map f us" by (auto simp: upsert_user_def Let_def f_def)
  moreover have "f u \<in> set (map f us)" using u(1) by simp
  moreover have "u_shopify_customer_id (f u) = c" using u(2) by (simp add: f_def)
  ultimately show ?thesis by blast
next
  case False
  with assms show ?thesis by (auto simp: upsert_user_def Let_def)
qed

lemma resolve_wallet_users:
  "users (snd (resolve_wallet p d))
     = snd (upsert_user (shopifyCustomerId p) (email p) (name p) (users d))"
  by (simp add: resolve_wallet_def insert_wallet_def Let_def
      split: prod.splits option.splits)

lemma apply_purchase_users:
  "users (snd (apply_purchase now p d))
     = snd (upsert_user (shopifyCustomerId p) (email p) (name p) (users d))"
  using resolve_wallet_users [of p d]
  by (auto simp: apply_purchase_def record_award_users split: prod.splits option.splits)

lemma apply_purchase_response:
  "fst (apply_purchase now p d) = Send 200 ''OK'' \<or> fst (apply_purchase now p d) = server_error"
  by (simp add: apply_purchase_def split: prod.splits option.splits)

lemma resolve_wallet_owner:
  assumes "resolve_wallet p d = (Some w, d1)"
  shows "\<exists>u \<in> set (users d1). u_shopify_customer_id u = shopifyCustomerId p \<and> w_user_id w = u_id u"
proof -
  obtain rows us where up:
    "upsert_user (shopifyCustomerId p) (email p) (name p) (users d) = (rows, us)"
    by (cases "upsert_user (shopifyCustomerId p) (email p) (name p) (users d)")
  have us: "users d1 = us" using resolve_wallet_users [of p d] assms up by simp
  show ?thesis
  proof (cases "single rows")
    case None
    with assms up show ?thesis by (simp add: resolve_wallet_def)
  next
    case (Some user)
    then have "user \<in> set rows" by (simp add: single_Some)
    from upsert_user_rows [OF up this]
    have u: "user \<in> set us" "u_shopify_customer_id user = shopifyCustomerId p" by simp_all
    have "w_user_id w = u_id user"
    proof (cases "single (filter (\<lambda>w. w_user_id w = u_id user) (wallets d))")
      case None
      with assms up Some show ?thesis
        by (auto simp: resolve_wallet_def insert_wallet_def single_def Let_def)
    next
      case (Some wallet)
      then have "wallet \<in> set (filter (\<lambda>w. w_user_id w = u_id user) (wallets d))"
        by (simp add: single_Some)
      then have "w_user_id wallet = u_id user" by simp
      with assms up Some \<open>single rows = Some user\<close> show ?thesis
        by (auto simp: resolve_wallet_def)
    qed
    with u us show ?thesis by blast
  qed
qed

lemma bind_e_left: "bind_e (Inr x) f = f x" "bind_e (Inl e) f = Inl e"
  by (simp_all add: bind_e_def)

lemma bind_e_all:
  assumes "\<And>x. m = Inr x \<Longrightarrow> \<forall>r. f x = Inr r \<longrightarrow> P r"
  shows "\<forall>r. bind_e m f = Inr r \<longrightarrow> P r"
  using assms by (cases m) (simp_all add: bind_e_def)

lemma read_order_without_id:
  assumes "get_prop order ''customer'' = Inr customer" and "truthy customer"
    and "get_prop customer ''id'' = Inr JUndefined" and "read_order E order = Inr r"
  shows "\<exists>p. r = Some p \<and> shopifyCustomerId p = ''undefined''"
proof -
  have "\<forall>r. read_order E order = Inr r \<longrightarrow> (\<exists>p. r = Some p \<and> shopifyCustomerId p = ''undefined'')"
    unfolding read_order_def
    apply (simp only: assms(1) bind_e_left assms(2) not_True_eq_False if_False assms(3)
        ToString.simps)
    apply (intro bind_e_all)
    apply simp
    done
  with assms(4) show ?thesis by blast
qed

lemma read_order_truthy:
  assumes "get_prop order ''customer'' = Inr customer" and "truthy customer"
  shows "read_order E order \<noteq> Inr None"
proof -
  have "\<forall>r. read_order E order = Inr r \<longrightarrow> r \<noteq> None"
    unfolding read_order_def
    apply (simp only: assms(1) bind_e_left assms(2) not_True_eq_False if_False)
    apply (intro bind_e_all)
    apply simp
    done
  then show ?thesis by blast
qed

lemma orders_paid_no_op_iff:
  assumes "verifyHmac E req = Inr True" and "getJson E req = Inr order"
    and "get_prop order ''customer'' = Inr customer"
  shows "(fst (orders_paid E now req d) = Send 200 ''No customer'') = (\<not> truthy customer)"
proof (cases "truthy customer")
  case False
  with assms show ?thesis
    by (simp add: orders_paid_def read_order_def bind_e_def)
next
  case True
  show ?thesis
  proof (cases "read_order E order")
    case (Inl e)
    with assms True show ?thesis
      by (simp add: orders_paid_def bind_e_def server_error_def)
  next
    case (Inr r)
    with read_order_truthy [OF assms(3) True, of E] obtain p where "r = Some p" by (cases r) auto
    with Inr assms True apply_purchase_response [of now p d] show ?thesis
      by (auto simp: orders_paid_def bind_e_def server_error_def)
  qed
qed

lemma trim_space: "trim '' '' = []"
  by code_simp

lemma read_order_no_id: "read_order test_env order_no_id = Inr (Some purchase_no_id)"
  by (simp add: read_order_def order_no_id_def bind_e_def calcPoints_10 trim_space
      purchase_no_id_def)

lemma resolve_no_id:
  "resolve_wallet purchase_no_id empty_db = (Some wallet_new, db_undefined_new)"
  by (simp add: resolve_wallet_def purchase_no_id_def empty_db_def upsert_user_def single_def
      insert_wallet_def fresh_id_def wallet_new_def db_undefined_new_def user_undefined_def
      Let_def)

lemma distinct_filter_cases:
  assumes "distinct (map f xs)"
  shows "filter (\<lambda>x. f x = v) xs = [] \<or> (\<exists>x. filter (\<lambda>x. f x = v) xs = [x])"
  using assms
proof (induction xs)
  case Nil
  then show ?case by simp
next
  case (Cons y ys)
  show ?case
  proof (cases "f y = v")
    case True
    with Cons.prems have "v \<notin> f ` set ys" by auto
    then have "filter (\<lambda>x. f x = v) ys = []" by (auto simp: filter_empty_conv)
    with True show ?thesis by simp
  next
    case False
    with Cons show ?thesis by simp
  qed
qed

lemma fold_max_ge: "a \<le> fold max ids (a::nat)" "i \<in> set ids \<Longrightarrow> i \<le> fold max ids a"
proof (induction ids arbitrary: a)
  case Nil
  { case 1 show ?case by simp }
  { case 2 then show ?case by simp }
next
  case (Cons j js)
  { case 1
    have "a \<le> max j a" by simp
    also have "\<dots> \<le> fold max js (max j a)" by (rule Cons.IH(1))
    finally show ?case by simp }
  { case 2
    show ?case
    proof (cases "i = j")
      case True
      have "j \<le> max j a" by simp
      also have "\<dots> \<le> fold max js (max j a)" by (rule Cons.IH(1))
      finally show ?thesis using True by simp
    next
      case False
      with 2 have "i \<in> set js" by simp
      then show ?thesis using Cons.IH(2) by simp
    qed }
qed

lemma fresh_id_new: "fresh_id ids \<notin> set ids"
proof
  assume "fresh_id ids \<in> set ids"
  then have "fresh_id ids \<le> fold max ids 0" by (rule fold_max_ge(2))
  then show False by (simp add: fresh_id_def)
qed

lemma upsert_user_new:
  assumes "filter (\<lambda>u. u_shopify_customer_id u = c) us = []"
  shows "upsert_user c e n us =
    ([\<lparr>u_id = fresh_id (map u_id us), u_shopify_customer_id = c,
        u_email = (if e = JUndefined then JNull else e), u_name = n\<rparr>],
     us @ [\<lparr>u_id = fresh_id (map u_id us), u_shopify_customer_id = c,
        u_email = (if e = JUndefined then JNull else e), u_name = n\<rparr>])"
proof -
  from assms have "\<not> (\<exists>u \<in> set us. u_shopify_customer_id u = c)"
    by (simp add: filter_empty_conv)
  then show ?thesis by (simp add: upsert_user_def Let_def)
qed

lemma upsert_user_existing:
  assumes "filter (\<lambda>u. u_shopify_customer_id u = c) us = [u]"
  shows "\<exists>u' us'. upsert_user c e n us = ([u'], us') \<and> u_id u' = u_id u \<and>
           filter (\<lambda>u. u_shopify_customer_id u = c) us' = [u'] \<and>
           map u_shopify_customer_id us' = map u_shopify_customer_id us \<and>
           map u_id us' = map u_id us"
proof -
  define f :: "user_row \<Rightarrow> user_row" where "f = (\<lambda>u. if u_shopify_customer_id u = c
      then u\<lparr>u_email := (if e = JUndefined then u_email u else e), u_name := n\<rparr> else u)"
  have key: "u_shopify_customer_id (f x) = u_shopify_customer_id x" for x by (simp add: f_def)
  have uid: "u_id (f x) = u_id x" for x by (simp add: f_def)
  from assms have "u \<in> set (filter (\<lambda>u. u_shopify_customer_id u = c) us)" by simp
  then have ex: "\<exists>u \<in> set us. u_shopify_customer_id u = c" by auto
  have fl: "filter (\<lambda>u. u_shopify_customer_id u = c) (map f us) = [f u]"
    using assms by (simp add: filter_map o_def key)
  from ex have "upsert_user c e n us = (filter (\<lambda>u. u_shopify_customer_id u = c) (map f us), map f us)"
    by (simp add: upsert_user_def Let_def f_def)
  then have "upsert_user c e n us = ([f u], map f us)" by (simp only: fl)
  moreover have "map u_shopify_customer_id (map f us) = map u_shopify_customer_id us"
    by (simp add: o_def key)
  moreover have "map u_id (map f us) = map u_id us" by (simp add: o_def uid)
  ultimately show ?thesis using fl uid by blast
qed

lemma resolve_wallet_ok:
  assumes ok: "store_ok d" and bal: "balance_of (shopifyCustomerId p) d = (a, l)"
  shows "\<exists>w d1 u. resolve_wallet p d = (Some w, d1) \<and> store_ok d1 \<and>
           filter (\<lambda>u. u_shopify_customer_id u = shopifyCustomerId p) (users d1) = [u] \<and>
           filter (\<lambda>w. w_user_id w = u_id u) (wallets d1) = [w] \<and>
           w_points w = a \<and> w_lifetime_points w = l"
proof -
  let ?c = "shopifyCustomerId p"
  let ?key = "\<lambda>u. u_shopify_customer_id u = ?c"
  from ok have dk: "distinct (map u_shopify_customer_id (users d))"
    and dw: "distinct (map w_user_id (wallets d))"
    and fk: "set (map w_user_id (wallets d)) \<subseteq> set (map u_id (users d))"
    by (simp_all add: store_ok_def)
  text \<open>The upsert leaves one row with the customer's key.\<close>
  have "\<exists>u us'. upsert_user ?c (email p) (name p) (users d) = ([u], us') \<and>
          filter ?key us' = [u] \<and> distinct (map u_shopify_customer_id us') \<and>
          set (map u_id (users d)) \<subseteq> set (map u_id us') \<and>
          (filter ?key (users d) = [] \<longrightarrow> u_id u \<notin> set (map u_id (users d))) \<and>
          (\<forall>u0. filter ?key (users d) = [u0] \<longrightarrow> u_id u = u_id u0)"
  proof -
    from distinct_filter_cases [OF dk, of ?c]
    consider "filter ?key (users d) = []" | u0 where "filter ?key (users d) = [u0]" by blast
    then show ?thesis
    proof cases
      case 1
      define u where "u = \<lparr>u_id = fresh_id (map u_id (users d)), u_shopify_customer_id = ?c,
        u_email = (if email p = JUndefined then JNull else email p), u_name = name p\<rparr>"
      have up: "upsert_user ?c (email p) (name p) (users d) = ([u], users d @ [u])"
        unfolding u_def by (rule upsert_user_new [OF 1])
      have "?c \<notin> set (map u_shopify_customer_id (users d))"
        using 1 by (auto simp: filter_empty_conv)
      then have "distinct (map u_shopify_customer_id (users d @ [u]))"
        using dk by (simp add: u_def)
      moreover have "filter ?key (users d @ [u]) = [u]" using 1 by (simp add: u_def)
      moreover have "u_id u \<notin> set (map u_id (users d))"
        using fresh_id_new [of "map u_id (users d)"] by (simp add: u_def)
      ultimately show ?thesis using up 1 by auto
    next
      case 2
      from upsert_user_existing [OF 2, of "email p" "name p"] obtain u us' where
        e1: "upsert_user ?c (email p) (name p) (users d) = ([u], us')"
        and e2: "u_id u = u_id u0"
        and e3: "filter ?key us' = [u]"
        and e4: "map u_shopify_customer_id us' = map u_shopify_customer_id (users d)"
        and e5: "map u_id us' = map u_id (users d)"
        by blast
      have e6: "distinct (map u_shopify_customer_id us')" using dk by (simp only: e4)
      have e7: "set (map u_id (users d)) \<subseteq> set (map u_id us')" by (simp only: e5)
      from e1 e2 e3 e6 e7 2 show ?thesis by auto
    qed
  qed
  then obtain u us' where up: "upsert_user ?c (email p) (name p) (users d) = ([u], us')"
    and fu: "filter ?key us' = [u]" and dk': "distinct (map u_shopify_customer_id us')"
    and ids: "set (map u_id (users d)) \<subseteq> set (map u_id us')"
    and new: "filter ?key (users d) = [] \<Longrightarrow> u_id u \<notin> set (map u_id (users d))"
    and old: "\<And>u0. filter ?key (users d) = [u0] \<Longrightarrow> u_id u = u_id u0"
    by blast
  have uin: "u_id u \<in> set (map u_id us')"
  proof -
    have "u \<in> set (filter ?key us')" by (simp add: fu)
    then show ?thesis by auto
  qed
  let ?mine = "\<lambda>w. w_user_id w = u_id u"
  from distinct_filter_cases [OF dw, of "u_id u"]
  consider "filter ?mine (wallets d) = []" | w where "filter ?mine (wallets d) = [w]" by blast
  then show ?thesis
  proof cases
    case 1
    define w where "w = \<lparr>w_id = fresh_id (map w_id (wallets d)), w_user_id = u_id u,
      w_points = 0, w_lifetime_points = 0, w_updated_at = None\<rparr>"
    define d1 where "d1 = d\<lparr>users := us', wallets := wallets d @ [w]\<rparr>"
    have r: "resolve_wallet p d = (Some w, d1)"
      using up 1
      by (simp add: resolve_wallet_def single_def insert_wallet_def w_def d1_def Let_def)
    have none: "u_id u \<notin> set (map w_user_id (wallets d))"
      using 1 by (auto simp: filter_empty_conv)
    have ok1: "store_ok d1"
      using dk' dw fk ids none uin by (auto simp: store_ok_def d1_def w_def)
    have f1: "filter ?key (users d1) = [u]" using fu by (simp add: d1_def)
    have f2: "filter ?mine (wallets d1) = [w]" using 1 by (simp add: d1_def w_def)
    have "wallet_of ?c d = None"
    proof (cases "filter ?key (users d)")
      case Nil
      then show ?thesis by (simp add: wallet_of_def)
    next
      case (Cons u0 rest)
      with distinct_filter_cases [OF dk, of ?c] have f0: "filter ?key (users d) = [u0]" by auto
      from old [OF f0] 1 have "filter (\<lambda>w. w_user_id w = u_id u0) (wallets d) = []" by simp
      with f0 show ?thesis by (simp add: wallet_of_def single_def)
    qed
    with bal have "a = 0" "l = 0" by (simp_all add: balance_of_def)
    then have "w_points w = a" "w_lifetime_points w = l" by (simp_all add: w_def)
    with r ok1 f1 f2 show ?thesis by blast
  next
    case 2
    define d1 where "d1 = d\<lparr>users := us'\<rparr>"
    have r: "resolve_wallet p d = (Some w, d1)"
      using up 2 by (simp add: resolve_wallet_def single_def d1_def Let_def)
    have ok1: "store_ok d1" using dk' dw fk ids by (auto simp: store_ok_def d1_def)
    have f1: "filter ?key (users d1) = [u]" using fu by (simp add: d1_def)
    have f2: "filter ?mine (wallets d1) = [w]" using 2 by (simp add: d1_def)
    have "w \<in> set (filter ?mine (wallets d))" by (simp add: 2)
    then have wm: "w \<in> set (wallets d)" and wu: "w_user_id w = u_id u" by simp_all
    from wm have "w_user_id w \<in> set (map w_user_id (wallets d))" by (simp only: set_map) (rule imageI)
    with fk have "w_user_id w \<in> set (map u_id (users d))" by (rule subsetD)
    then have "u_id u \<in> set (map u_id (users d))" by (simp only: wu)
    with new have "filter ?key (users d) \<noteq> []" by blast
    with distinct_filter_cases [OF dk, of ?c] obtain u0 where f0: "filter ?key (users d) = [u0]"
      by blast
    from old [OF f0] 2 have "filter (\<lambda>w. w_user_id w = u_id u0) (wallets d) = [w]" by simp
    with f0 have "wallet_of ?c d = Some w" by (simp add: wallet_of_def single_def)
    with bal have "w_points w = a" "w_lifetime_points w = l" by (simp_all add: balance_of_def)
    with r ok1 f1 f2 show ?thesis by blast
  qed
qed

lemma apply_purchase_step:
  assumes ok: "store_ok d" and k: "points p = Fin (of_int k)"
    and bal: "balance_of (shopifyCustomerId p) d = (a, l)"
    and s: "\<bar>a\<bar> \<le> 2 ^ 53" "\<bar>a + k\<bar> \<le> 2 ^ 53" "\<bar>l\<bar> \<le> 2 ^ 53" "\<bar>l + k\<bar> \<le> 2 ^ 53"
  shows "fst (apply_purchase now p d) = Send 200 ''OK'' \<and>
         store_ok (snd (apply_purchase now p d)) \<and>
         balance_of (shopifyCustomerId p) (snd (apply_purchase now p d)) = (a + k, l + k)"
proof -
  let ?c = "shopifyCustomerId p"
  from resolve_wallet_ok [OF ok bal] obtain w d1 u where
    r: "resolve_wallet p d = (Some w, d1)" and ok1: "store_ok d1"
    and f1: "filter (\<lambda>u. u_shopify_customer_id u = ?c) (users d1) = [u]"
    and f2: "filter (\<lambda>w. w_user_id w = u_id u) (wallets d1) = [w]"
    and wa: "w_points w = a" and wl: "w_lifetime_points w = l"
    by blast
  define upd :: "wallet_row \<Rightarrow> wallet_row" where "upd = (\<lambda>x. if w_id x = w_id w
      then x\<lparr>w_points := a + k, w_lifetime_points := l + k, w_updated_at := Some now\<rparr>
      else x)"
  have uid: "w_user_id (upd x) = w_user_id x" for x by (simp add: upd_def)
  have s': "\<bar>w_points w\<bar> \<le> 2 ^ 53" "\<bar>w_points w + k\<bar> \<le> 2 ^ 53"
    "\<bar>w_lifetime_points w\<bar> \<le> 2 ^ 53" "\<bar>w_lifetime_points w + k\<bar> \<le> 2 ^ 53"
    using s by (simp_all add: wa wl)
  define d2 where "d2 = record_award now p w d1"
  have ap: "apply_purchase now p d = (Send 200 ''OK'', d2)"
    using r by (simp add: apply_purchase_def d2_def)
  have us: "users d2 = users d1" by (simp add: d2_def record_award_users)
  have ws: "wallets d2 = map upd (wallets d1)"
    unfolding d2_def record_award_exact [OF k s'] by (simp add: upd_def wa wl)
  have ok2: "store_ok d2"
    using ok1 by (simp add: store_ok_def us ws o_def uid)
  have "filter (\<lambda>w. w_user_id w = u_id u) (wallets d2) = [upd w]"
    using f2 by (simp add: ws filter_map o_def uid)
  with f1 have "wallet_of ?c d2 = Some (upd w)" by (simp add: wallet_of_def us single_def)
  then have "balance_of ?c d2 = (a + k, l + k)" by (simp add: balance_of_def upd_def)
  with ap ok2 show ?thesis by simp
qed

lemma calcPoints_5: "calcPoints E (JStr ''5.00'') = Inr (Fin 15)"
  using calcPoints_decimal(1) [of "''5''" "''00''" E] by (simp add: dec_def)

lemma read_order_O2: "read_order test_env order_O2 = Inr (Some purchase_O2)"
  by (simp add: read_order_def order_O2_def bind_e_def calcPoints_5 trim_Ann_Lee
      purchase_O2_def)

lemma parse_O2: "getJson test_env (signed body_O2) = Inr order_O2"
  by (simp add: parse_signed test_parse_bodies)

lemma store_ok_empty: "store_ok empty_db"
  by (simp add: store_ok_def empty_db_def)

lemma balance_of_empty: "balance_of c empty_db = (0, 0)"
  by (simp add: balance_of_def wallet_of_def empty_db_def)

lemma orders_paid_exact:
  assumes "verifyHmac E req = Inr True" and "getJson E req = Inr order"
    and "read_order E order = Inr (Some p)" and "points p = Fin (of_int k)"
    and "resolve_wallet p d = (Some w, d1)"
    and "\<bar>w_points w\<bar> \<le> 2 ^ 53" and "\<bar>w_points w + k\<bar> \<le> 2 ^ 53"
    and "\<bar>w_lifetime_points w\<bar> \<le> 2 ^ 53" and "\<bar>w_lifetime_points w + k\<bar> \<le> 2 ^ 53"
  shows "orders_paid E now req d =
     (Send 200 ''OK'',
      d1\<lparr>wallet_transactions := wallet_transactions d1 @
          [\<lparr>t_wallet_id = w_id w, t_type = ''earn'', t_source = ''order'',
            t_shopify_order_id = orderId p, t_points_change = k,
            t_note = ''Points from order''\<rparr>],
        wallets := map (\<lambda>x. if w_id x = w_id w
                       then x\<lparr>w_points := w_points w + k,
                              w_lifetime_points := w_lifetime_points w + k,
                              w_updated_at := Some now\<rparr>
                       else x) (wallets d1)\<rparr>)"
  using orders_paid_purchase [OF assms(1-3)] record_award_exact [OF assms(4,6-9)] assms(5)
  by (simp add: apply_purchase_def)

lemma run_O1:
  "orders_paid test_env ''2024-01-01T00:00:00.000Z'' (signed body_O1) empty_db
     = (Send 200 ''OK'', db_after_O1)"
proof -
  have k: "points purchase_O1 = Fin (of_int 30)" by (simp add: purchase_O1_def)
  have s: "\<bar>w_points wallet_new\<bar> \<le> 2 ^ 53" "\<bar>w_points wallet_new + 30\<bar> \<le> 2 ^ 53"
    "\<bar>w_lifetime_points wallet_new\<bar> \<le> 2 ^ 53" "\<bar>w_lifetime_points wallet_new + 30\<bar> \<le> 2 ^ 53"
    by (simp_all add: wallet_new_def)
  show ?thesis
    unfolding orders_paid_exact [OF verify_signed parse_O1 read_order_O1 k resolve_empty s]
    by (simp add: db_wallet_new_def wallet_new_def db_after_O1_def wallet_30_def txn_O1_def
        purchase_O1_def)
qed

lemma resolve_again:
  "resolve_wallet purchase_O1 db_after_O1 = (Some wallet_30, db_after_O1)"
  by (simp add: resolve_wallet_def purchase_O1_def db_after_O1_def upsert_user_def single_def
      user_C1_def wallet_30_def Let_def)

lemma run_O1_again:
  "orders_paid test_env ''2024-01-02T00:00:00.000Z'' (signed body_O1) db_after_O1
     = (Send 200 ''OK'',
        \<lparr>users = [user_C1], wallets = [wallet_60], wallet_transactions = [txn_O1, txn_O1]\<rparr>)"
proof -
  have k: "points purchase_O1 = Fin (of_int 30)" by (simp add: purchase_O1_def)
  have s: "\<bar>w_points wallet_30\<bar> \<le> 2 ^ 53" "\<bar>w_points wallet_30 + 30\<bar> \<le> 2 ^ 53"
    "\<bar>w_lifetime_points wallet_30\<bar> \<le> 2 ^ 53" "\<bar>w_lifetime_points wallet_30 + 30\<bar> \<le> 2 ^ 53"
    by (simp_all add: wallet_30_def)
  show ?thesis
    unfolding orders_paid_exact [OF verify_signed parse_O1 read_order_O1 k resolve_again s]
    by (simp add: db_after_O1_def wallet_30_def wallet_60_def txn_O1_def purchase_O1_def)
qed

lemma round64_not_NaN: "round64 x \<noteq> NaN"
  by (simp add: round64_def)

lemma calcPoints_integral:
  assumes "calcPoints E v = Inr (Fin a)"
  shows "\<exists>k. a = of_int k"
proof -
  from assms obtain x where
    m: "Math_floor (js_mul (if num_truthy x then x else Fin 0) (Fin 3)) = Fin a"
    by (cases "parseFloat E v") (auto simp: calcPoints_def bind_e_def Let_def)
  then show ?thesis
    by (cases "js_mul (if num_truthy x then x else Fin 0) (Fin 3)") auto
qed

lemma if_all:
  assumes "c \<Longrightarrow> \<forall>r. A = Inr r \<longrightarrow> P r" and "\<not> c \<Longrightarrow> \<forall>r. B = Inr r \<longrightarrow> P r"
  shows "\<forall>r. (if c then A else B) = Inr r \<longrightarrow> P r"
  using assms by simp

lemma read_order_points:
  assumes "read_order E order = Inr (Some p)"
  shows "\<exists>v. calcPoints E v = Inr (points p)"
proof -
  have "\<forall>r. read_order E order = Inr r \<longrightarrow>
          (\<forall>p. r = Some p \<longrightarrow> (\<exists>v. calcPoints E v = Inr (points p)))"
    unfolding read_order_def
    apply (intro bind_e_all if_all)
     apply simp
    apply auto
    done
  with assms show ?thesis by blast
qed

lemma record_award_refused:
  assumes "\<forall>a. points p \<noteq> Fin a"
  shows "wallets (record_award now p w d) = wallets d"
proof -
  have "int_column (js_add x (points p)) = None" for x
    using assms by (cases x; cases "points p") (simp_all add: int_column_def)
  then show ?thesis by (simp add: record_award_def update_wallet_def Let_def)
qed

lemma resolve_wallet_wallets:
  assumes "resolve_wallet p d = (r, d1)"
  shows "wallets d1 = wallets d \<or>
         (\<exists>w. r = Some w \<and> wallets d1 = wallets d @ [w] \<and> w_points w = 0 \<and>
              w_lifetime_points w = 0 \<and> w_id w \<notin> set (map w_id (wallets d)))"
proof -
  obtain rows us where up:
    "upsert_user (shopifyCustomerId p) (email p) (name p) (users d) = (rows, us)"
    by (cases "upsert_user (shopifyCustomerId p) (email p) (name p) (users d)")
  show ?thesis
  proof (cases "single rows")
    case None
    with assms up show ?thesis by (auto simp: resolve_wallet_def)
  next
    case (Some user)
    show ?thesis
    proof (cases "single (filter (\<lambda>w. w_user_id w = u_id user) (wallets d))")
      case None
      with assms up Some fresh_id_new [of "map w_id (wallets d)"] show ?thesis
        by (auto simp: resolve_wallet_def insert_wallet_def single_def Let_def)
    next
      case (Some wallet)
      with assms up \<open>single rows = Some user\<close> show ?thesis
        by (auto simp: resolve_wallet_def)
    qed
  qed
qed

lemma rows_kept:
  assumes "\<forall>x \<in> set ws. P x (f x)"
  shows "list_all2 P ws (take (length ws) (map f (ws @ ex)))"
  using assms by (simp add: list_all2_map2 list_all2_same)

lemma apply_purchase_invariants:
  assumes dist: "distinct (map w_id (wallets d))"
    and rng: "\<forall>w \<in> set (wallets d). 0 \<le> w_points w \<and> w_points w \<le> 2 ^ 52 \<and>
                \<bar>w_lifetime_points w\<bar> \<le> 2 ^ 52"
    and calc: "calcPoints E v = Inr (points p)"
    and aw: "\<forall>a. points p = Fin a \<longrightarrow> 0 \<le> a \<and> a \<le> 2 ^ 52"
  shows "(\<forall>w \<in> set (wallets (snd (apply_purchase now p d))). 0 \<le> w_points w) \<and>
         list_all2 (\<lambda>x y. w_id y = w_id x \<and> w_lifetime_points x \<le> w_lifetime_points y)
           (wallets d) (take (length (wallets d)) (wallets (snd (apply_purchase now p d))))"
proof -
  let ?P = "\<lambda>x y. w_id y = w_id x \<and> w_lifetime_points x \<le> w_lifetime_points y"
  let ?d' = "snd (apply_purchase now p d)"
  obtain r d1 where res: "resolve_wallet p d = (r, d1)" by (cases "resolve_wallet p d")
  from resolve_wallet_wallets [OF res] obtain ex where
    ws1: "wallets d1 = wallets d @ ex"
    and ex: "\<forall>w \<in> set ex. w_points w = 0 \<and> w_lifetime_points w = 0"
    and dist1: "distinct (map w_id (wallets d @ ex))"
  proof -
    assume h: "\<And>ex. wallets d1 = wallets d @ ex \<Longrightarrow>
      \<forall>w \<in> set ex. w_points w = 0 \<and> w_lifetime_points w = 0 \<Longrightarrow>
      distinct (map w_id (wallets d @ ex)) \<Longrightarrow> thesis"
    from resolve_wallet_wallets [OF res] show thesis
    proof
      assume "wallets d1 = wallets d"
      then show thesis using h [of "[]"] dist by simp
    next
      assume "\<exists>w. r = Some w \<and> wallets d1 = wallets d @ [w] \<and> w_points w = 0 \<and>
        w_lifetime_points w = 0 \<and> w_id w \<notin> set (map w_id (wallets d))"
      then obtain w where "wallets d1 = wallets d @ [w]" "w_points w = 0"
        "w_lifetime_points w = 0" "w_id w \<notin> set (map w_id (wallets d))" by blast
      then show thesis using h [of "[w]"] dist by simp
    qed
  qed
  have rng1: "\<forall>w \<in> set (wallets d @ ex). 0 \<le> w_points w \<and> w_points w \<le> 2 ^ 52 \<and>
                \<bar>w_lifetime_points w\<bar> \<le> 2 ^ 52"
    using rng ex by auto
  have same: "(\<forall>w \<in> set (wallets d @ ex). 0 \<le> w_points w) \<and>
      list_all2 ?P (wallets d) (take (length (wallets d)) (wallets d @ ex))"
    using rng1 by (simp add: list_all2_same)
  show ?thesis
  proof (cases r)
    case None
    with res ws1 same show ?thesis by (simp add: apply_purchase_def)
  next
    case (Some w)
    with res have ap: "?d' = record_award now p w d1" by (simp add: apply_purchase_def)
    from resolve_wallet_member res Some have wm: "w \<in> set (wallets d @ ex)"
      by (simp add: ws1 [symmetric])
    show ?thesis
    proof (cases "\<exists>a. points p = Fin a")
      case False
      then have "wallets ?d' = wallets d1" by (simp add: ap record_award_refused)
      with ws1 same show ?thesis by simp
    next
      case True
      then obtain a where a: "points p = Fin a" by blast
      with calcPoints_integral calc obtain k where k: "a = of_int k" by metis
      from aw a k have "(0::rat) \<le> of_int k" "(of_int k :: rat) \<le> of_int (2 ^ 52)" by simp_all
      then have k0: "0 \<le> k" and k1: "k \<le> 2 ^ 52" by (simp_all only: of_int_le_iff of_int_0_le_iff)
      from rng1 wm have w: "0 \<le> w_points w" "w_points w \<le> 2 ^ 52" "\<bar>w_lifetime_points w\<bar> \<le> 2 ^ 52"
        by blast+
      define upd :: "wallet_row \<Rightarrow> wallet_row" where "upd = (\<lambda>x. if w_id x = w_id w
        then x\<lparr>w_points := w_points w + k, w_lifetime_points := w_lifetime_points w + k,
               w_updated_at := Some now\<rparr>
        else x)"
      have pk: "points p = Fin (of_int k)" using a k by simp
      have s: "\<bar>w_points w\<bar> \<le> 2 ^ 53" "\<bar>w_points w + k\<bar> \<le> 2 ^ 53"
        "\<bar>w_lifetime_points w\<bar> \<le> 2 ^ 53" "\<bar>w_lifetime_points w + k\<bar> \<le> 2 ^ 53"
        using w k0 k1 by simp_all
      have ws': "wallets ?d' = map upd (wallets d @ ex)"
        unfolding ap record_award_exact [OF pk s] by (simp add: upd_def ws1)
      have eq: "x = w" if "x \<in> set (wallets d @ ex)" "w_id x = w_id w" for x
        using dist1 wm that by (meson distinct_map inj_onD)
      have nn: "0 \<le> w_points (upd x)" if "x \<in> set (wallets d @ ex)" for x
        using rng1 that w k0 by (simp add: upd_def)
      have keep: "?P x (upd x)" if "x \<in> set (wallets d)" for x
      proof (cases "w_id x = w_id w")
        case True
        with eq [of x] that have "x = w" by simp
        then show ?thesis using k0 by (simp add: upd_def)
      next
        case False
        then show ?thesis by (simp add: upd_def)
      qed
      have "\<forall>y \<in> set (wallets ?d'). 0 \<le> w_points y" using nn by (auto simp: ws')
      moreover have "list_all2 ?P (wallets d) (take (length (wallets d)) (wallets ?d'))"
        unfolding ws' using keep by (intro rows_kept) blast
      ultimately show ?thesis by blast
    qed
  qed
qed

lemma calcPoints_minus_5: "calcPoints E (JStr ''-5.00'') = Inr (Fin (- 15))"
  using calcPoints_decimal(2) [of "''5''" "''00''" E] by (simp add: dec_def)

lemma read_order_refund: "read_order test_env order_refund = Inr (Some purchase_refund)"
  by (simp add: read_order_def order_refund_def bind_e_def calcPoints_minus_5 trim_Ann_Lee
      purchase_refund_def)

lemma parse_refund: "getJson test_env (signed body_refund) = Inr order_refund"
  by (simp add: parse_signed test_parse_bodies)

lemma resolve_refund_empty:
  "resolve_wallet purchase_refund empty_db = (Some wallet_new, db_wallet_new)"
  by (simp add: resolve_wallet_def purchase_refund_def empty_db_def upsert_user_def single_def
      insert_wallet_def fresh_id_def wallet_new_def db_wallet_new_def user_C1_def Let_def)

lemma resolve_refund_after:
  "resolve_wallet purchase_refund db_after_O1 = (Some wallet_30, db_after_O1)"
  by (simp add: resolve_wallet_def purchase_refund_def db_after_O1_def upsert_user_def
      single_def user_C1_def wallet_30_def Let_def)

lemma run_refund_empty:
  "wallets (snd (orders_paid test_env ''2024-01-02T00:00:00.000Z'' (signed body_refund)
     empty_db)) = [wallet_overdrawn]"
proof -
  have k: "points purchase_refund = Fin (of_int (- 15))" by (simp add: purchase_refund_def)
  have s: "\<bar>w_points wallet_new\<bar> \<le> 2 ^ 53" "\<bar>w_points wallet_new + (- 15)\<bar> \<le> 2 ^ 53"
    "\<bar>w_lifetime_points wallet_new\<bar> \<le> 2 ^ 53" "\<bar>w_lifetime_points wallet_new + (- 15)\<bar> \<le> 2 ^ 53"
    by (simp_all add: wallet_new_def)
  show ?thesis
    unfolding orders_paid_exact [OF verify_signed parse_refund read_order_refund k
        resolve_refund_empty s]
    by (simp add: db_wallet_new_def wallet_new_def wallet_overdrawn_def)
qed

lemma run_refund_after:
  "wallets (snd (orders_paid test_env ''2024-01-02T00:00:00.000Z'' (signed body_refund)
     db_after_O1)) = [wallet_15]"
proof -
  have k: "points purchase_refund = Fin (of_int (- 15))" by (simp add: purchase_refund_def)
  have s: "\<bar>w_points wallet_30\<bar> \<le> 2 ^ 53" "\<bar>w_points wallet_30 + (- 15)\<bar> \<le> 2 ^ 53"
    "\<bar>w_lifetime_points wallet_30\<bar> \<le> 2 ^ 53" "\<bar>w_lifetime_points wallet_30 + (- 15)\<bar> \<le> 2 ^ 53"
    by (simp_all add: wallet_30_def)
  show ?thesis
    unfolding orders_paid_exact [OF verify_signed parse_refund read_order_refund k
        resolve_refund_after s]
    by (simp add: db_after_O1_def wallet_30_def wallet_15_def)
qed

lemma award_O2: "award test_env (signed body_O2) = Some (Fin 15)"
  by (simp add: award_def verify_signed parse_O2 read_order_O2 bind_e_def
      purchase_O2_def)

lemma cents_points_floor:
  assumes "k < 10 ^ 15"
  shows "\<exists>d p. round64 (of_nat k / 100) = Fin d \<and> round64 (d * 3) = Fin p
           \<and> \<lfloor>p\<rfloor> = \<lfloor>of_nat k / 100 * 3 :: rat\<rfloor> \<and> \<lfloor>- p\<rfloor> = \<lfloor>- (of_nat k / 100) * 3 :: rat\<rfloor>"
proof -
  from cents_points_exact [OF assms] obtain d p where
    d: "round64 (of_nat k / 100) = Fin d" and p: "round64 (d * 3) = Fin p"
    and fl: "\<lfloor>p\<rfloor> = int (3 * k) div 100" and fn: "\<lfloor>- p\<rfloor> = (- int (3 * k)) div 100"
    by blast
  have "(of_nat k / 100 * 3 :: rat) = of_int (int (3 * k)) / of_int 100" by simp
  then have 1: "\<lfloor>of_nat k / 100 * 3 :: rat\<rfloor> = int (3 * k) div 100"
    by (simp only: floor_divide_of_int_eq)
  have "(- (of_nat k / 100) * 3 :: rat) = of_int (- int (3 * k)) / of_int 100" by simp
  then have 2: "\<lfloor>- (of_nat k / 100) * 3 :: rat\<rfloor> = (- int (3 * k)) div 100"
    by (simp only: floor_divide_of_int_eq)
  from d p fl fn 1 2 show ?thesis by metis
qed

lemma decimal_value_cents:
  assumes "length fp \<le> 2" and "decimal_value ip fp < 10 ^ 13"
  shows "\<exists>k < 10 ^ 15. decimal_value ip fp = of_nat k / 100"
proof -
  define m where "m = length fp"
  define n where "n = dec (ip @ fp)"
  define k where "k = n * 10 ^ (2 - m)"
  have m: "m \<le> 2" using assms(1) by (simp add: m_def)
  have "(10::rat) ^ m * 10 ^ (2 - m) = 10 ^ 2" using m by (simp add: power_add [symmetric])
  then have pw: "(10::rat) ^ (2 - m) = 100 / 10 ^ m" by (simp add: field_simps)
  have v: "decimal_value ip fp = of_nat k / 100"
    by (simp add: decimal_value_def k_def m_def [symmetric] n_def [symmetric] pw)
  with assms(2) have "(of_nat k :: rat) < of_nat (10 ^ 15)" by simp
  then have "k < 10 ^ 15" by (simp only: of_nat_less_iff)
  with v show ?thesis by blast
qed

lemma unsigned_literal_int:
  assumes "ip \<noteq> []" and "\<forall>c \<in> set ip. is_digit c"
  shows "unsigned_literal ip = round64 (of_nat (dec ip))"
proof -
  have tw: "takeWhile is_digit ip = ip" using assms(2) by (simp add: takeWhile_eq_all_conv)
  have dw: "dropWhile is_digit ip = []" using assms(2) by simp
  have "is_digit (hd ip)" using assms by (cases ip) simp_all
  moreover have "\<not> is_digit CHR ''I''" by (simp add: is_digit_def)
  ultimately have "hd ip \<noteq> CHR ''I''" by auto
  then have inf: "take 8 ip \<noteq> ''Infinity''" using assms(1) by (cases ip) auto
  show ?thesis
    unfolding unsigned_literal_def
    by (simp only: inf if_False tw dw Let_def) (simp add: assms(1) exponent_part_def)
qed

lemma parseFloat_str_int:
  assumes "ip \<noteq> []" and "\<forall>c \<in> set ip. is_digit c"
  shows "parseFloat_str ip = round64 (of_nat (dec ip))"
    and "parseFloat_str (''-'' @ ip) = js_neg (round64 (of_nat (dec ip)))"
proof -
  obtain c cs where ip: "ip = c # cs" using assms(1) by (cases ip) auto
  then have c: "is_digit c" using assms(2) by simp
  have 1: "trim_start ip = ip"
    using is_digit_code [OF c] by (intro trim_start_none) (auto simp: ip)
  have 2: "trim_start (''-'' @ ip) = ''-'' @ ip"
    by (intro trim_start_none) simp_all
  have 3: "c \<noteq> CHR ''-''" "c \<noteq> CHR ''+''" using c by (auto simp: is_digit_def)
  show "parseFloat_str ip = round64 (of_nat (dec ip))"
    unfolding parseFloat_str_def 1 Let_def using 3 unsigned_literal_int [OF assms]
    by (simp add: ip)
  show "parseFloat_str (''-'' @ ip) = js_neg (round64 (of_nat (dec ip)))"
    unfolding parseFloat_str_def 2 Let_def using unsigned_literal_int [OF assms]
    by simp
qed

lemma calcPoints_value:
  assumes "parseFloat_str s = round64 x" and "parseFloat_str t = js_neg (round64 x)"
    and "x = of_nat k / 100" and "k < 10 ^ 15"
  shows "calcPoints E (JStr s) = Inr (Fin (of_int \<lfloor>x * 3\<rfloor>))"
    and "calcPoints E (JStr t) = Inr (Fin (of_int \<lfloor>- x * 3\<rfloor>))"
proof -
  from cents_points_floor [OF assms(4)] obtain d p where
    d: "round64 x = Fin d" and p: "round64 (d * 3) = Fin p"
    and fl: "\<lfloor>p\<rfloor> = \<lfloor>x * 3\<rfloor>" and fn: "\<lfloor>- p\<rfloor> = \<lfloor>- x * 3\<rfloor>"
    unfolding assms(3) by blast
  have pos: "parseFloat_str s = Fin d" using assms(1) d by simp
  have neg: "parseFloat_str t = Fin (- d)" using assms(2) d by simp
  have "round64 (- (d * 3)) = Fin (- p)"
    using round64_neg [of "d * 3"] by (simp only: p js_neg.simps)
  moreover have "- d * 3 = - (d * 3)" by simp
  ultimately have np: "round64 (- d * 3) = Fin (- p)" by simp
  show "calcPoints E (JStr s) = Inr (Fin (of_int \<lfloor>x * 3\<rfloor>))"
    using calcPoints_str [OF pos p, of E] by (simp only: fl)
  show "calcPoints E (JStr t) = Inr (Fin (of_int \<lfloor>- x * 3\<rfloor>))"
    using calcPoints_str [OF neg np, of E] by (simp only: fn)
qed

lemma calcPoints_plain:
  assumes "ip \<noteq> []" and "\<forall>c \<in> set (ip @ fp). is_digit c" and "length fp \<le> 2"
    and "decimal_value ip fp < 10 ^ 13"
  shows "calcPoints E (JStr (ip @ ''.'' @ fp)) = Inr (Fin (of_int \<lfloor>decimal_value ip fp * 3\<rfloor>))"
    and "calcPoints E (JStr (''-'' @ ip @ ''.'' @ fp))
           = Inr (Fin (of_int \<lfloor>- decimal_value ip fp * 3\<rfloor>))"
    and "fp = [] \<Longrightarrow> calcPoints E (JStr ip) = Inr (Fin (of_int \<lfloor>decimal_value ip fp * 3\<rfloor>))"
    and "fp = [] \<Longrightarrow> calcPoints E (JStr (''-'' @ ip))
           = Inr (Fin (of_int \<lfloor>- decimal_value ip fp * 3\<rfloor>))"
proof -
  have dig: "\<forall>c \<in> set ip. is_digit c" "\<forall>c \<in> set fp. is_digit c" using assms(2) by simp_all
  from decimal_value_cents [OF assms(3,4)] obtain k where
    k: "k < 10 ^ 15" and v: "decimal_value ip fp = of_nat k / 100" by blast
  have val: "of_nat (dec (ip @ fp)) * 10 powi (- int (length fp)) = decimal_value ip fp"
    by (simp add: decimal_value_def power_int_minus_divide)
  have 1: "parseFloat_str (ip @ ''.'' @ fp) = round64 (decimal_value ip fp)"
    using parseFloat_str_decimal(1) [OF assms(1) dig] by (simp only: val)
  have 2: "parseFloat_str (''-'' @ ip @ ''.'' @ fp) = js_neg (round64 (decimal_value ip fp))"
    using parseFloat_str_decimal(2) [OF assms(1) dig] by (simp only: val)
  from calcPoints_value [OF 1 2 v k, of E]
  show "calcPoints E (JStr (ip @ ''.'' @ fp)) = Inr (Fin (of_int \<lfloor>decimal_value ip fp * 3\<rfloor>))"
    and "calcPoints E (JStr (''-'' @ ip @ ''.'' @ fp))
           = Inr (Fin (of_int \<lfloor>- decimal_value ip fp * 3\<rfloor>))"
    by blast+
  {
    assume e: "fp = []"
    then have dv: "decimal_value ip fp = of_nat (dec ip)" by (simp add: decimal_value_def)
    have 3: "parseFloat_str ip = round64 (decimal_value ip fp)"
      using parseFloat_str_int(1) [OF assms(1) dig(1)] by (simp only: dv)
    have 4: "parseFloat_str (''-'' @ ip) = js_neg (round64 (decimal_value ip fp))"
      using parseFloat_str_int(2) [OF assms(1) dig(1)] by (simp only: dv)
    from calcPoints_value [OF 3 4 v k, of E]
    show "calcPoints E (JStr ip) = Inr (Fin (of_int \<lfloor>decimal_value ip fp * 3\<rfloor>))"
      and "calcPoints E (JStr (''-'' @ ip)) = Inr (Fin (of_int \<lfloor>- decimal_value ip fp * 3\<rfloor>))"
      by blast+
  }
qed

lemma decimal_value_10: "decimal_value ''10'' ''00'' = 10"
  by (simp add: decimal_value_def dec_def)

lemma decimal_value_7: "decimal_value ''7'' [] = 7"
  by (simp add: decimal_value_def dec_def)

lemma apply_purchase_key_present:
  "\<exists>u \<in> set (users (snd (apply_purchase now p d))).
     u_shopify_customer_id u = shopifyCustomerId p"
proof -
  obtain rows us where up:
    "upsert_user (shopifyCustomerId p) (email p) (name p) (users d) = (rows, us)"
    by (cases "upsert_user (shopifyCustomerId p) (email p) (name p) (users d)")
  have "users (snd (apply_purchase now p d)) = us"
    by (simp only: apply_purchase_users up snd_conv)
  then show ?thesis using upsert_user_key_present [OF up] by simp
qed

lemma orders_paid_unreadable:
  assumes "verifyHmac E req = Inr True" and "getJson E req = Inr order"
    and "get_prop order ''customer'' = Inl err"
  shows "orders_paid E now req d = (Send 500 ''Server error'', d)"
  using assms by (simp add: orders_paid_def read_order_def bind_e_def server_error_def)

lemma orders_paid_falsy:
  assumes "verifyHmac E req = Inr True" and "getJson E req = Inr order"
    and "get_prop order ''customer'' = Inr customer" and "\<not> truthy customer"
  shows "orders_paid E now req d = (Send 200 ''No customer'', d)"
  using assms by (simp add: orders_paid_def read_order_def bind_e_def)

lemma parse_anonymous: "getJson test_env (signed body_anonymous) = Inr order_anonymous"
  by (simp add: parse_signed test_parse_bodies)

lemma parse_null: "getJson test_env (signed body_null) = Inr JNull"
  by (simp add: parse_signed test_parse_bodies)

lemma parse_empty_customer:
  "getJson test_env (signed body_empty_customer) = Inr order_empty_customer"
  by (simp add: parse_signed test_parse_bodies)

lemma read_order_empty_customer:
  "read_order test_env order_empty_customer = Inr (Some purchase_empty_customer)"
  by (simp add: read_order_def order_empty_customer_def bind_e_def calcPoints_10 trim_space
      purchase_empty_customer_def)

lemma resolve_empty_customer:
  "resolve_wallet purchase_empty_customer empty_db =
     (Some wallet_new, \<lparr>users = [user_nobody], wallets = [wallet_new], wallet_transactions = []\<rparr>)"
  by (simp add: resolve_wallet_def purchase_empty_customer_def empty_db_def upsert_user_def
      single_def insert_wallet_def fresh_id_def wallet_new_def user_nobody_def Let_def)

lemma run_empty_customer:
  "orders_paid test_env ''2024-01-01T00:00:00.000Z'' (signed body_empty_customer) empty_db
     = (Send 200 ''OK'', db_nobody)"
proof -
  have k: "points purchase_empty_customer = Fin (of_int 30)"
    by (simp add: purchase_empty_customer_def)
  have s: "\<bar>w_points wallet_new\<bar> \<le> 2 ^ 53" "\<bar>w_points wallet_new + 30\<bar> \<le> 2 ^ 53"
    "\<bar>w_lifetime_points wallet_new\<bar> \<le> 2 ^ 53" "\<bar>w_lifetime_points wallet_new + 30\<bar> \<le> 2 ^ 53"
    by (simp_all add: wallet_new_def)
  show ?thesis
    unfolding orders_paid_exact [OF verify_signed parse_empty_customer
        read_order_empty_customer k resolve_empty_customer s]
    by (simp add: wallet_new_def db_nobody_def wallet_30_def txn_O8_def
        purchase_empty_customer_def)
qed

lemma parse_C2: "getJson test_env (signed body_C2) = Inr order_C2"
  by (simp add: parse_signed test_parse_bodies)

lemma read_order_C2: "read_order test_env order_C2 = Inr (Some purchase_C2)"
  by (simp add: read_order_def order_C2_def bind_e_def calcPoints_5 trim_Ann_Lee
      purchase_C2_def)

lemma resolve_C2:
  "resolve_wallet purchase_C2 db_after_O1 =
     (Some wallet_C2_new,
      \<lparr>users = [user_C1, user_C2], wallets = [wallet_30, wallet_C2_new],
        wallet_transactions = [txn_O1]\<rparr>)"
  by (simp add: resolve_wallet_def purchase_C2_def db_after_O1_def upsert_user_def single_def
      insert_wallet_def fresh_id_def wallet_C2_new_def user_C1_def user_C2_def wallet_30_def
      Let_def)

lemma run_C2:
  "orders_paid test_env ''2024-01-02T00:00:00.000Z'' (signed body_C2) db_after_O1
     = (Send 200 ''OK'', db_shared_email)"
proof -
  have k: "points purchase_C2 = Fin (of_int 15)" by (simp add: purchase_C2_def)
  have s: "\<bar>w_points wallet_C2_new\<bar> \<le> 2 ^ 53" "\<bar>w_points wallet_C2_new + 15\<bar> \<le> 2 ^ 53"
    "\<bar>w_lifetime_points wallet_C2_new\<bar> \<le> 2 ^ 53"
    "\<bar>w_lifetime_points wallet_C2_new + 15\<bar> \<le> 2 ^ 53"
    by (simp_all add: wallet_C2_new_def)
  show ?thesis
    unfolding orders_paid_exact [OF verify_signed parse_C2 read_order_C2 k resolve_C2 s]
    by (simp add: wallet_C2_new_def db_shared_email_def wallet_30_def wallet_C2_def txn_O4_def
        purchase_C2_def)
qed

lemma store_ok_shared_email: "store_ok db_shared_email"
  by (simp add: store_ok_def db_shared_email_def user_C1_def user_C2_def wallet_30_def
      wallet_C2_def)

lemma failure_500:
  "failure 500 m = Json 500 (JObj [(''success'', JBool False), (''message'', JStr m)])"
  by (simp add: failure_def)

lemma wallet_by_email_ambiguous:
  assumes "e \<noteq> []" and "1 < length (filter (\<lambda>u. u_email u = JStr e) (users d))"
  shows "fst (wallet_by_email (Some e) d) = failure 500 ''User lookup failed''"
proof -
  from assms(2) obtain x y zs where "filter (\<lambda>u. u_email u = JStr e) (users d) = x # y # zs"
    by (cases "filter (\<lambda>u. u_email u = JStr e) (users d)" rule: list.exhaust)
       (auto simp: neq_Nil_conv)
  with assms(1) show ?thesis by (simp add: wallet_by_email_def maybeSingle_def)
qed

lemma wallet_by_email_two_wallets:
  assumes "e \<noteq> []" and "filter (\<lambda>u. u_email u = JStr e) (users d) = [u]"
    and "1 < length (filter (\<lambda>w. w_user_id w = u_id u) (wallets d))"
  shows "fst (wallet_by_email (Some e) d) = failure 500 ''Wallet lookup failed''"
proof -
  from assms(3) obtain x y zs where
    "filter (\<lambda>w. w_user_id w = u_id u) (wallets d) = x # y # zs"
    by (cases "filter (\<lambda>w. w_user_id w = u_id u) (wallets d)" rule: list.exhaust)
       (auto simp: neq_Nil_conv)
  with assms(1,2) show ?thesis by (simp add: wallet_by_email_def maybeSingle_def)
qed

section \<open>The claims of the specification\<close>




text \<open>
  C8 (as amended). The handler looks at the \<open>customer\<close> of an authenticated payload, not
  at the identity in it. When \<open>customer\<close> is absent or falsy, the answer is status 200
  with the text "No customer", and nothing is written. When \<open>customer\<close> is truthy, the
  answer is never "No customer", also when it carries no \<open>id\<close>: once the order is read,
  the purchase is applied, an account with its customer id is in the store afterwards,
  and that id is "undefined" when \<open>customer\<close> has no \<open>id\<close>. When the payload has no
  \<open>customer\<close> that can be read (it is \<open>null\<close>), the answer is status 500 and nothing is
  written.
\<close>

theorem orders_paid_no_customer:
  assumes "verifyHmac E req = Inr True"
    and "getJson E req = Inr order"
  shows
    "(get_prop order ''customer'' = Inl err \<longrightarrow>
        orders_paid E now req d = (Send 500 ''Server error'', d)) \<and>
     (get_prop order ''customer'' = Inr customer \<and> \<not> truthy customer \<longrightarrow>
        orders_paid E now req d = (Send 200 ''No customer'', d)) \<and>
     (get_prop order ''customer'' = Inr customer \<and> truthy customer \<longrightarrow>
        fst (orders_paid E now req d) \<noteq> Send 200 ''No customer'' \<and>
        (\<forall>p. read_order E order = Inr (Some p) \<longrightarrow>
           orders_paid E now req d = apply_purchase now p d \<and>
           (\<exists>u \<in> set (users (snd (orders_paid E now req d))).
               u_shopify_customer_id u = shopifyCustomerId p) \<and>
           (get_prop customer ''id'' = Inr JUndefined \<longrightarrow>
              shopifyCustomerId p = ''undefined'')))"
proof (intro conjI impI allI)
  assume "get_prop order ''customer'' = Inl err"
  then show "orders_paid E now req d = (Send 500 ''Server error'', d)"
    by (rule orders_paid_unreadable [OF assms])
next
  assume "get_prop order ''customer'' = Inr customer \<and> \<not> truthy customer"
  then show "orders_paid E now req d = (Send 200 ''No customer'', d)"
    using orders_paid_falsy [OF assms] by blast
next
  assume "get_prop order ''customer'' = Inr customer \<and> truthy customer"
  then show "fst (orders_paid E now req d) \<noteq> Send 200 ''No customer''"
    using orders_paid_no_op_iff [OF assms, of customer now d] by blast
next
  fix p
  assume "get_prop order ''customer'' = Inr customer \<and> truthy customer"
    and r: "read_order E order = Inr (Some p)"
  show o: "orders_paid E now req d = apply_purchase now p d"
    by (rule orders_paid_purchase [OF assms r])
  show "\<exists>u \<in> set (users (snd (orders_paid E now req d))).
      u_shopify_customer_id u = shopifyCustomerId p"
    unfolding o by (rule apply_purchase_key_present)
next
  fix p
  assume c: "get_prop order ''customer'' = Inr customer \<and> truthy customer"
    and r: "read_order E order = Inr (Some p)"
    and i: "get_prop customer ''id'' = Inr JUndefined"
  from c have c1: "get_prop order ''customer'' = Inr customer" and c2: "truthy customer"
    by simp_all
  from read_order_without_id [OF c1 c2 i r] show "shopifyCustomerId p = ''undefined''"
    by simp
qed

theorem orders_paid_no_customer_witness:
  "verifyHmac test_env (signed body_anonymous) = Inr True \<and>
   getJson test_env (signed body_anonymous) = Inr order_anonymous \<and>
   get_prop order_anonymous ''customer'' = Inr JUndefined \<and>
   \<not> truthy JUndefined \<and>
   orders_paid test_env ''2024-01-01T00:00:00.000Z'' (signed body_anonymous) db_after_O1
     = (Send 200 ''No customer'', db_after_O1) \<and>
   getJson test_env (signed body_null) = Inr JNull \<and>
   get_prop JNull ''customer'' = Inl TypeError \<and>
   orders_paid test_env ''2024-01-01T00:00:00.000Z'' (signed body_null) db_after_O1
     = (Send 500 ''Server error'', db_after_O1) \<and>
   getJson test_env (signed body_empty_customer) = Inr order_empty_customer \<and>
   get_prop order_empty_customer ''customer'' = Inr (JObj []) \<and>
   truthy (JObj []) \<and>
   get_prop (JObj []) ''id'' = Inr JUndefined \<and>
   read_order test_env order_empty_customer = Inr (Some purchase_empty_customer) \<and>
   shopifyCustomerId purchase_empty_customer = ''undefined'' \<and>
   fst (orders_paid test_env ''2024-01-01T00:00:00.000Z'' (signed body_empty_customer) empty_db)
     \<noteq> Send 200 ''No customer'' \<and>
   orders_paid test_env ''2024-01-01T00:00:00.000Z'' (signed body_empty_customer) empty_db
     = apply_purchase ''2024-01-01T00:00:00.000Z'' purchase_empty_customer empty_db"
proof -
  have a3: "get_prop order_anonymous ''customer'' = Inr JUndefined"
    by (simp add: order_anonymous_def)
  have a4: "\<not> truthy JUndefined" by simp
  have n3: "get_prop JNull ''customer'' = Inl TypeError" by simp
  have e3: "get_prop order_empty_customer ''customer'' = Inr (JObj [])"
    by (simp add: order_empty_customer_def)
  have e4: "truthy (JObj [])" by simp
  have e5: "get_prop (JObj []) ''id'' = Inr JUndefined" by simp
  have e7: "shopifyCustomerId purchase_empty_customer = ''undefined''"
    by (simp add: purchase_empty_customer_def)
  note ta = orders_paid_no_customer [OF verify_signed parse_anonymous,
      where err = TypeError and customer = JUndefined and now = "''2024-01-01T00:00:00.000Z''"
        and d = db_after_O1]
  note tn = orders_paid_no_customer [OF verify_signed parse_null,
      where err = TypeError and customer = JUndefined and now = "''2024-01-01T00:00:00.000Z''"
        and d = db_after_O1]
  note te = orders_paid_no_customer [OF verify_signed parse_empty_customer,
      where err = TypeError and customer = "JObj []" and now = "''2024-01-01T00:00:00.000Z''"
        and d = empty_db]
  from ta a3 a4 have a: "orders_paid test_env ''2024-01-01T00:00:00.000Z''
      (signed body_anonymous) db_after_O1 = (Send 200 ''No customer'', db_after_O1)"
    by blast
  from tn n3 have n: "orders_paid test_env ''2024-01-01T00:00:00.000Z''
      (signed body_null) db_after_O1 = (Send 500 ''Server error'', db_after_O1)"
    by blast
  from te e3 e4 have e: "fst (orders_paid test_env ''2024-01-01T00:00:00.000Z''
      (signed body_empty_customer) empty_db) \<noteq> Send 200 ''No customer''"
    by blast
  from te e3 e4 read_order_empty_customer
  have f: "orders_paid test_env ''2024-01-01T00:00:00.000Z'' (signed body_empty_customer)
      empty_db = apply_purchase ''2024-01-01T00:00:00.000Z'' purchase_empty_customer empty_db"
    by blast
  from verify_signed [of body_anonymous] parse_anonymous a3 a4 a parse_null n3 n
    parse_empty_customer e3 e4 e5 read_order_empty_customer e7 e f
  show ?thesis by blast
qed

theorem customer_without_identity_counterexample:
  "verifyHmac test_env (signed body_empty_customer) = Inr True \<and>
   getJson test_env (signed body_empty_customer) = Inr order_empty_customer \<and>
   get_prop order_empty_customer ''customer'' = Inr (JObj []) \<and>
   get_prop (JObj []) ''id'' = Inr JUndefined \<and>
   orders_paid test_env ''2024-01-01T00:00:00.000Z'' (signed body_empty_customer) empty_db
     = (Send 200 ''OK'', db_nobody) \<and>
   users db_nobody = [user_nobody] \<and> u_shopify_customer_id user_nobody = ''undefined'' \<and>
   wallets db_nobody = [wallet_30] \<and> wallet_transactions db_nobody = [txn_O8] \<and>
   db_nobody \<noteq> empty_db"
  by (simp add: run_empty_customer verify_signed parse_empty_customer)
     (simp add: order_empty_customer_def db_nobody_def user_nobody_def empty_db_def)

text \<open>
  C2 (as amended). The points calculator reads the number at the head of the amount,
  takes 0 when there is none, multiplies by the fixed rate 3 and takes the floor, all in
  binary64. For the amount "0" the result is 0, and for an unparseable amount it is 0.
  For a plain amount \<open>a\<close> with at most two decimals, below \<open>10^13\<close>, the result is exactly
  the floor of \<open>a * 3\<close>. A negative amount is not sent to 0: for the same amount with a
  minus sign the result is the floor of \<open>- a * 3\<close>.
\<close>

theorem calcPoints_amounts:
  "calcPoints E (JStr ''0'') = Inr (Fin 0) \<and>
   (parseFloat E v = Inr NaN \<longrightarrow> calcPoints E v = Inr (Fin 0)) \<and>
   (ip \<noteq> [] \<and> (\<forall>c \<in> set (ip @ fp). is_digit c) \<and> length fp \<le> 2 \<and>
    decimal_value ip fp < 10 ^ 13 \<longrightarrow>
      calcPoints E (JStr (ip @ ''.'' @ fp))
        = Inr (Fin (of_int \<lfloor>decimal_value ip fp * 3\<rfloor>)) \<and>
      calcPoints E (JStr (''-'' @ ip @ ''.'' @ fp))
        = Inr (Fin (of_int \<lfloor>- decimal_value ip fp * 3\<rfloor>)) \<and>
      (fp = [] \<longrightarrow>
         calcPoints E (JStr ip) = Inr (Fin (of_int \<lfloor>decimal_value ip fp * 3\<rfloor>)) \<and>
         calcPoints E (JStr (''-'' @ ip)) = Inr (Fin (of_int \<lfloor>- decimal_value ip fp * 3\<rfloor>))))"
proof (intro conjI impI)
  show "calcPoints E (JStr ''0'') = Inr (Fin 0)" by (rule calcPoints_zero)
next
  assume "parseFloat E v = Inr NaN"
  then show "calcPoints E v = Inr (Fin 0)" by (rule calcPoints_NaN)
next
  assume h: "ip \<noteq> [] \<and> (\<forall>c \<in> set (ip @ fp). is_digit c) \<and> length fp \<le> 2 \<and>
    decimal_value ip fp < 10 ^ 13"
  then have a: "ip \<noteq> []" and b: "\<forall>c \<in> set (ip @ fp). is_digit c" and c: "length fp \<le> 2"
    and d: "decimal_value ip fp < 10 ^ 13" by blast+
  note t = calcPoints_plain [OF a b c d, of E]
  show "calcPoints E (JStr (ip @ ''.'' @ fp)) = Inr (Fin (of_int \<lfloor>decimal_value ip fp * 3\<rfloor>))"
    by (rule t(1))
  show "calcPoints E (JStr (''-'' @ ip @ ''.'' @ fp))
        = Inr (Fin (of_int \<lfloor>- decimal_value ip fp * 3\<rfloor>))"
    by (rule t(2))
  assume e: "fp = []"
  show "calcPoints E (JStr ip) = Inr (Fin (of_int \<lfloor>decimal_value ip fp * 3\<rfloor>))"
    by (rule t(3) [OF e])
  show "calcPoints E (JStr (''-'' @ ip)) = Inr (Fin (of_int \<lfloor>- decimal_value ip fp * 3\<rfloor>))"
    by (rule t(4) [OF e])
qed

theorem calcPoints_amounts_witness:
  "parseFloat test_env (JStr ''abc'') = Inr NaN \<and>
   calcPoints test_env (JStr ''abc'') = Inr (Fin 0) \<and>
   ''10'' \<noteq> [] \<and> list_all is_digit (''10'' @ ''00'') \<and> length ''00'' \<le> 2 \<and>
   decimal_value ''10'' ''00'' = 10 \<and> decimal_value ''10'' ''00'' < 10 ^ 13 \<and>
   calcPoints test_env (JStr ''10.00'') = Inr (Fin 30) \<and>
   calcPoints test_env (JStr ''-10.00'') = Inr (Fin (- 30)) \<and>
   decimal_value ''7'' [] = 7 \<and>
   calcPoints test_env (JStr ''7'') = Inr (Fin 21) \<and>
   calcPoints test_env (JStr ''-7'') = Inr (Fin (- 21))"
  using calcPoints_amounts [of test_env "JStr ''abc''" "''10''" "''00''"]
    calcPoints_amounts [of test_env "JStr ''abc''" "''7''" "[]"] parseFloat_abc [of test_env]
  by (simp add: decimal_value_10 decimal_value_7)

theorem negative_amount_counterexample:
  "calcPoints test_env (JStr ''-5.00'') = Inr (Fin (- 15)) \<and>
   calcPoints test_env (JStr ''-5.00'') \<noteq> Inr (Fin 0)"
  using calcPoints_decimal(2) [of "''5''" "''00''" test_env]
  by (simp add: dec_def)

text \<open>
  C9 (as amended). The balance query by email never writes. For a non-empty email: when
  no account has the email, the answer is success with a null name, no wallet and zero
  current and lifetime points. When exactly one account has the email and it has no
  wallet, the answer again has no wallet and zero points. When that one account has
  exactly one wallet, the answer carries the wallet's current and lifetime totals. The
  email is no key of the accounts: when more than one account has the email, the answer
  is status 500 with the message "User lookup failed"; and when the one account has more
  than one wallet, it is status 500 with the message "Wallet lookup failed". Without an
  email, or with an empty one, the answer is status 400.
\<close>

theorem wallet_by_email_result:
  "snd (wallet_by_email q d) = d \<and>
   (e \<noteq> [] \<and> filter (\<lambda>u. u_email u = JStr e) (users d) = [] \<longrightarrow>
      fst (wallet_by_email (Some e) d) =
        Json 200 (JObj [(''success'', JBool True), (''email'', JStr e), (''name'', JNull),
          (''hasWallet'', JBool False), (''points'', JNum (Fin 0)),
          (''lifetime_points'', JNum (Fin 0))])) \<and>
   (e \<noteq> [] \<and> filter (\<lambda>u. u_email u = JStr e) (users d) = [u] \<and>
    filter (\<lambda>w. w_user_id w = u_id u) (wallets d) = [] \<longrightarrow>
      fst (wallet_by_email (Some e) d) =
        Json 200 (JObj [(''success'', JBool True), (''email'', u_email u),
          (''name'', JStr (u_name u)), (''hasWallet'', JBool False),
          (''points'', JNum (Fin 0)), (''lifetime_points'', JNum (Fin 0))])) \<and>
   (e \<noteq> [] \<and> filter (\<lambda>u. u_email u = JStr e) (users d) = [u] \<and>
    filter (\<lambda>w. w_user_id w = u_id u) (wallets d) = [w] \<and>
    \<bar>w_points w\<bar> \<le> 2 ^ 53 \<and> \<bar>w_lifetime_points w\<bar> \<le> 2 ^ 53 \<longrightarrow>
      fst (wallet_by_email (Some e) d) =
        Json 200 (JObj [(''success'', JBool True), (''email'', u_email u),
          (''name'', JStr (u_name u)), (''hasWallet'', JBool True),
          (''points'', JNum (Fin (of_int (w_points w)))),
          (''lifetime_points'', JNum (Fin (of_int (w_lifetime_points w))))])) \<and>
   (e \<noteq> [] \<and> 1 < length (filter (\<lambda>u. u_email u = JStr e) (users d)) \<longrightarrow>
      fst (wallet_by_email (Some e) d) =
        Json 500 (JObj [(''success'', JBool False),
          (''message'', JStr ''User lookup failed'')])) \<and>
   (e \<noteq> [] \<and> filter (\<lambda>u. u_email u = JStr e) (users d) = [u] \<and>
    1 < length (filter (\<lambda>w. w_user_id w = u_id u) (wallets d)) \<longrightarrow>
      fst (wallet_by_email (Some e) d) =
        Json 500 (JObj [(''success'', JBool False),
          (''message'', JStr ''Wallet lookup failed'')])) \<and>
   fst (wallet_by_email None d) =
     Json 400 (JObj [(''success'', JBool False), (''message'', JStr ''email is required'')]) \<and>
   fst (wallet_by_email (Some []) d) =
     Json 400 (JObj [(''success'', JBool False), (''message'', JStr ''email is required'')])"
proof (intro conjI impI)
  show "snd (wallet_by_email q d) = d" by (rule wallet_by_email_no_write)
next
  assume "e \<noteq> [] \<and> filter (\<lambda>u. u_email u = JStr e) (users d) = []"
  then show "fst (wallet_by_email (Some e) d) =
        Json 200 (JObj [(''success'', JBool True), (''email'', JStr e), (''name'', JNull),
          (''hasWallet'', JBool False), (''points'', JNum (Fin 0)),
          (''lifetime_points'', JNum (Fin 0))])"
    by (simp add: wallet_by_email_def maybeSingle_def)
next
  assume "e \<noteq> [] \<and> filter (\<lambda>u. u_email u = JStr e) (users d) = [u] \<and>
    filter (\<lambda>w. w_user_id w = u_id u) (wallets d) = []"
  then show "fst (wallet_by_email (Some e) d) =
        Json 200 (JObj [(''success'', JBool True), (''email'', u_email u),
          (''name'', JStr (u_name u)), (''hasWallet'', JBool False),
          (''points'', JNum (Fin 0)), (''lifetime_points'', JNum (Fin 0))])"
    by (simp add: wallet_by_email_def maybeSingle_def)
next
  assume "e \<noteq> [] \<and> filter (\<lambda>u. u_email u = JStr e) (users d) = [u] \<and>
    filter (\<lambda>w. w_user_id w = u_id u) (wallets d) = [w] \<and>
    \<bar>w_points w\<bar> \<le> 2 ^ 53 \<and> \<bar>w_lifetime_points w\<bar> \<le> 2 ^ 53"
  then show "fst (wallet_by_email (Some e) d) =
        Json 200 (JObj [(''success'', JBool True), (''email'', u_email u),
          (''name'', JStr (u_name u)), (''hasWallet'', JBool True),
          (''points'', JNum (Fin (of_int (w_points w)))),
          (''lifetime_points'', JNum (Fin (of_int (w_lifetime_points w))))])"
    by (simp add: wallet_by_email_def maybeSingle_def num_of_int_safe)
next
  assume "e \<noteq> [] \<and> 1 < length (filter (\<lambda>u. u_email u = JStr e) (users d))"
  then show "fst (wallet_by_email (Some e) d) =
        Json 500 (JObj [(''success'', JBool False),
          (''message'', JStr ''User lookup failed'')])"
    using wallet_by_email_ambiguous [of e d] by (simp add: failure_500)
next
  assume "e \<noteq> [] \<and> filter (\<lambda>u. u_email u = JStr e) (users d) = [u] \<and>
    1 < length (filter (\<lambda>w. w_user_id w = u_id u) (wallets d))"
  then show "fst (wallet_by_email (Some e) d) =
        Json 500 (JObj [(''success'', JBool False),
          (''message'', JStr ''Wallet lookup failed'')])"
    using wallet_by_email_two_wallets [of e d u] by (simp add: failure_500)
next
  show "fst (wallet_by_email None d) =
     Json 400 (JObj [(''success'', JBool False), (''message'', JStr ''email is required'')])"
    by (simp add: wallet_by_email_def failure_def)
next
  show "fst (wallet_by_email (Some []) d) =
     Json 400 (JObj [(''success'', JBool False), (''message'', JStr ''email is required'')])"
    by (simp add: wallet_by_email_def failure_def)
qed

theorem wallet_by_email_result_witness:
  "fst (wallet_by_email (Some ''nobody@example.com'') db_after_O1) =
     Json 200 (JObj [(''success'', JBool True), (''email'', JStr ''nobody@example.com''),
       (''name'', JNull), (''hasWallet'', JBool False), (''points'', JNum (Fin 0)),
       (''lifetime_points'', JNum (Fin 0))]) \<and>
   fst (wallet_by_email (Some ''c1@example.com'') db_no_wallet) =
     Json 200 (JObj [(''success'', JBool True), (''email'', JStr ''c1@example.com''),
       (''name'', JStr ''Ann Lee''), (''hasWallet'', JBool False), (''points'', JNum (Fin 0)),
       (''lifetime_points'', JNum (Fin 0))]) \<and>
   fst (wallet_by_email (Some ''c1@example.com'') db_after_O1) =
     Json 200 (JObj [(''success'', JBool True), (''email'', JStr ''c1@example.com''),
       (''name'', JStr ''Ann Lee''), (''hasWallet'', JBool True), (''points'', JNum (Fin 30)),
       (''lifetime_points'', JNum (Fin 30))]) \<and>
   snd (wallet_by_email (Some ''c1@example.com'') db_after_O1) = db_after_O1 \<and>
   length (filter (\<lambda>u. u_email u = JStr ''c1@example.com'') (users db_shared_email)) = 2 \<and>
   fst (wallet_by_email (Some ''c1@example.com'') db_shared_email) =
     Json 500 (JObj [(''success'', JBool False), (''message'', JStr ''User lookup failed'')]) \<and>
   length (filter (\<lambda>w. w_user_id w = u_id user_C1) (wallets db_two_wallets)) = 2 \<and>
   fst (wallet_by_email (Some ''c1@example.com'') db_two_wallets) =
     Json 500 (JObj [(''success'', JBool False), (''message'', JStr ''Wallet lookup failed'')]) \<and>
   fst (wallet_by_email None db_after_O1) =
     Json 400 (JObj [(''success'', JBool False), (''message'', JStr ''email is required'')])"
  using wallet_by_email_result [of "Some ''c1@example.com''" db_after_O1 "''nobody@example.com''"]
    wallet_by_email_result [of None db_no_wallet "''c1@example.com''" user_C1]
    wallet_by_email_result [of "Some ''c1@example.com''" db_after_O1 "''c1@example.com''"
      user_C1 wallet_30]
    wallet_by_email_result [of None db_shared_email "''c1@example.com''"]
    wallet_by_email_result [of None db_two_wallets "''c1@example.com''" user_C1]
  by (simp add: db_after_O1_def db_no_wallet_def db_shared_email_def db_two_wallets_def
      user_C1_def user_C2_def wallet_30_def wallet_second_def)

theorem shared_email_counterexample:
  "orders_paid test_env ''2024-01-01T00:00:00.000Z'' (signed body_O1) empty_db
     = (Send 200 ''OK'', db_after_O1) \<and>
   orders_paid test_env ''2024-01-02T00:00:00.000Z'' (signed body_C2) db_after_O1
     = (Send 200 ''OK'', db_shared_email) \<and>
   store_ok db_shared_email \<and>
   users db_shared_email = [user_C1, user_C2] \<and>
   u_email user_C1 = JStr ''c1@example.com'' \<and> u_email user_C2 = JStr ''c1@example.com'' \<and>
   wallet_by_email (Some ''c1@example.com'') db_shared_email =
     (Json 500 (JObj [(''success'', JBool False), (''message'', JStr ''User lookup failed'')]),
      db_shared_email)"
  by (simp add: run_O1 run_C2 store_ok_shared_email)
     (simp add: wallet_by_email_def maybeSingle_def failure_def db_shared_email_def
        user_C1_def user_C2_def)

text \<open>
  C5. On a successful webhook application with point delta \<open>k\<close>, the wallet resolved for
  the customer gets its previous current total plus \<open>k\<close> and its previous lifetime total
  plus \<open>k\<close>, and its update timestamp is set to the time of the request; the other
  wallets stay as they are. The totals are integers in the range where the program's
  numbers are exact (up to \<open>2^53\<close> in absolute value).
\<close>

theorem orders_paid_balance_update:
  assumes "verifyHmac E req = Inr True"
    and "getJson E req = Inr order"
    and "read_order E order = Inr (Some p)"
    and "points p = Fin (of_int k)"
    and "resolve_wallet p d = (Some w, d1)"
    and "\<bar>w_points w\<bar> \<le> 2 ^ 53" and "\<bar>w_points w + k\<bar> \<le> 2 ^ 53"
    and "\<bar>w_lifetime_points w\<bar> \<le> 2 ^ 53" and "\<bar>w_lifetime_points w + k\<bar> \<le> 2 ^ 53"
  shows "fst (orders_paid E now req d) = Send 200 ''OK'' \<and>
         w \<in> set (wallets d1) \<and>
         wallets (snd (orders_paid E now req d)) =
           map (\<lambda>x. if w_id x = w_id w
                     then x\<lparr>w_points := w_points w + k,
                            w_lifetime_points := w_lifetime_points w + k,
                            w_updated_at := Some now\<rparr>
                     else x) (wallets d1)"
  using orders_paid_purchase [OF assms(1-3)] resolve_wallet_member [OF assms(5)]
    record_award_exact [OF assms(4,6-9)] assms(5)
  by (simp add: apply_purchase_def)

theorem orders_paid_balance_update_witness:
  "verifyHmac test_env (signed body_O1) = Inr True \<and>
   getJson test_env (signed body_O1) = Inr order_O1 \<and>
   read_order test_env order_O1 = Inr (Some purchase_O1) \<and>
   points purchase_O1 = Fin (of_int 30) \<and>
   resolve_wallet purchase_O1 empty_db = (Some wallet_new, db_wallet_new) \<and>
   \<bar>w_points wallet_new\<bar> \<le> 2 ^ 53 \<and> \<bar>w_points wallet_new + 30\<bar> \<le> 2 ^ 53 \<and>
   \<bar>w_lifetime_points wallet_new\<bar> \<le> 2 ^ 53 \<and> \<bar>w_lifetime_points wallet_new + 30\<bar> \<le> 2 ^ 53 \<and>
   fst (orders_paid test_env ''2024-01-01T00:00:00.000Z'' (signed body_O1) empty_db)
     = Send 200 ''OK'' \<and>
   wallets (snd (orders_paid test_env ''2024-01-01T00:00:00.000Z'' (signed body_O1) empty_db))
     = [wallet_30]"
proof -
  have 4: "points purchase_O1 = Fin (of_int 30)" by (simp add: purchase_O1_def)
  have 6: "\<bar>w_points wallet_new\<bar> \<le> 2 ^ 53" "\<bar>w_points wallet_new + 30\<bar> \<le> 2 ^ 53"
    "\<bar>w_lifetime_points wallet_new\<bar> \<le> 2 ^ 53" "\<bar>w_lifetime_points wallet_new + 30\<bar> \<le> 2 ^ 53"
    by (simp_all add: wallet_new_def)
  from orders_paid_balance_update [OF verify_signed parse_O1 read_order_O1 4 resolve_empty 6,
      of "''2024-01-01T00:00:00.000Z''"]
  show ?thesis
    using verify_signed parse_O1 read_order_O1 4 resolve_empty 6
    by (simp add: db_wallet_new_def wallet_new_def wallet_30_def)
qed

text \<open>
  C7. When the account resolved for the event has no wallet, the handler creates one
  wallet for it, with current and lifetime totals zero, and the transaction record and
  the balance update are applied to that new wallet: afterwards the wallet table has
  one row more, and exactly one row for the account.
\<close>

theorem orders_paid_creates_wallet:
  assumes "verifyHmac E req = Inr True"
    and "getJson E req = Inr order"
    and "read_order E order = Inr (Some p)"
    and "upsert_user (shopifyCustomerId p) (email p) (name p) (users d) = ([u], us)"
    and "filter (\<lambda>w. w_user_id w = u_id u) (wallets d) = []"
  shows
    "(let w = \<lparr>w_id = fresh_id (map w_id (wallets d)), w_user_id = u_id u, w_points = 0,
               w_lifetime_points = 0, w_updated_at = None\<rparr>;
          d1 = d\<lparr>users := us, wallets := wallets d @ [w]\<rparr>
      in resolve_wallet p d = (Some w, d1) \<and>
         orders_paid E now req d = (Send 200 ''OK'', record_award now p w d1) \<and>
         length (wallets (snd (orders_paid E now req d))) = Suc (length (wallets d)) \<and>
         length (filter (\<lambda>x. w_user_id x = u_id u)
                   (wallets (snd (orders_paid E now req d)))) = 1)"
proof -
  define w where "w = \<lparr>w_id = fresh_id (map w_id (wallets d)), w_user_id = u_id u,
    w_points = 0, w_lifetime_points = 0, w_updated_at = None\<rparr>"
  define d1 where "d1 = d\<lparr>users := us, wallets := wallets d @ [w]\<rparr>"
  have r: "resolve_wallet p d = (Some w, d1)"
    using assms(4,5)
    by (simp add: resolve_wallet_def single_def insert_wallet_def w_def d1_def Let_def)
  have o: "orders_paid E now req d = (Send 200 ''OK'', record_award now p w d1)"
    using orders_paid_purchase [OF assms(1-3)] r by (simp add: apply_purchase_def)
  have ids: "map w_user_id (wallets (snd (orders_paid E now req d)))
               = map w_user_id (wallets d) @ [u_id u]"
    by (simp add: o record_award_user_ids d1_def w_def)
  have "length (map w_user_id (wallets (snd (orders_paid E now req d))))
          = Suc (length (wallets d))"
    by (simp only: ids) simp
  then have len: "length (wallets (snd (orders_paid E now req d))) = Suc (length (wallets d))"
    by simp
  have "filter (\<lambda>y. y = u_id u) (map w_user_id (wallets d)) = []"
    using assms(5) filter_by_image [of w_user_id "u_id u" "wallets d"] by simp
  then have one: "length (filter (\<lambda>x. w_user_id x = u_id u)
                   (wallets (snd (orders_paid E now req d)))) = 1"
    by (simp add: count_by_image ids)
  from r o len one show ?thesis
    unfolding Let_def w_def [symmetric] d1_def [symmetric] by blast
qed

theorem orders_paid_creates_wallet_witness:
  "verifyHmac test_env (signed body_O1) = Inr True \<and>
   getJson test_env (signed body_O1) = Inr order_O1 \<and>
   read_order test_env order_O1 = Inr (Some purchase_O1) \<and>
   upsert_user (shopifyCustomerId purchase_O1) (email purchase_O1) (name purchase_O1)
     (users empty_db) = ([user_C1], [user_C1]) \<and>
   filter (\<lambda>w. w_user_id w = u_id user_C1) (wallets empty_db) = [] \<and>
   resolve_wallet purchase_O1 empty_db = (Some wallet_new, db_wallet_new) \<and>
   w_points wallet_new = 0 \<and> w_lifetime_points wallet_new = 0 \<and>
   orders_paid test_env ''2024-01-01T00:00:00.000Z'' (signed body_O1) empty_db
     = (Send 200 ''OK'', record_award ''2024-01-01T00:00:00.000Z'' purchase_O1 wallet_new
          db_wallet_new) \<and>
   length (wallets (snd (orders_paid test_env ''2024-01-01T00:00:00.000Z'' (signed body_O1)
     empty_db))) = 1"
proof -
  have 5: "filter (\<lambda>w. w_user_id w = u_id user_C1) (wallets empty_db) = []"
    by (simp add: empty_db_def)
  have w: "\<lparr>w_id = fresh_id (map w_id (wallets empty_db)), w_user_id = u_id user_C1,
      w_points = 0, w_lifetime_points = 0, w_updated_at = None\<rparr> = wallet_new"
    by (simp add: wallet_new_def empty_db_def fresh_id_def user_C1_def)
  have d: "empty_db\<lparr>users := [user_C1], wallets := wallets empty_db @ [wallet_new]\<rparr>
      = db_wallet_new"
    by (simp add: empty_db_def db_wallet_new_def)
  note t = orders_paid_creates_wallet [OF verify_signed parse_O1 read_order_O1 upsert_empty 5,
      of "''2024-01-01T00:00:00.000Z''", unfolded Let_def w d]
  from t have a: "resolve_wallet purchase_O1 empty_db = (Some wallet_new, db_wallet_new)"
    by blast
  from t have b: "orders_paid test_env ''2024-01-01T00:00:00.000Z'' (signed body_O1) empty_db
     = (Send 200 ''OK'', record_award ''2024-01-01T00:00:00.000Z'' purchase_O1 wallet_new
          db_wallet_new)"
    by blast
  from t have "length (wallets (snd (orders_paid test_env ''2024-01-01T00:00:00.000Z''
      (signed body_O1) empty_db))) = Suc (length (wallets empty_db))"
    by blast
  then have c: "length (wallets (snd (orders_paid test_env ''2024-01-01T00:00:00.000Z''
      (signed body_O1) empty_db))) = 1"
    by (simp add: empty_db_def)
  have z: "w_points wallet_new = 0" "w_lifetime_points wallet_new = 0"
    by (simp_all add: wallet_new_def)
  from verify_signed [of body_O1] parse_O1 read_order_O1 upsert_empty 5 a z b c
  show ?thesis by blast
qed

text \<open>
  C10. For an authenticated payload whose \<open>customer\<close> can be read, the answer is the
  no-op "No customer" exactly when \<open>customer\<close> is falsy. When \<open>customer\<close> is truthy and
  has no \<open>id\<close>, and nothing throws while the order is read, the handler goes on with the
  customer id "undefined": the user table then holds an account with that key, and the
  point award is credited to the wallet resolved for it, which belongs to an account
  with that key.
\<close>

theorem orders_paid_customer_without_id:
  assumes "verifyHmac E req = Inr True"
    and "getJson E req = Inr order"
    and "get_prop order ''customer'' = Inr customer"
  shows
    "((fst (orders_paid E now req d) = Send 200 ''No customer'') = (\<not> truthy customer)) \<and>
     (truthy customer \<and> get_prop customer ''id'' = Inr JUndefined \<and> read_order E order = Inr r \<longrightarrow>
        (\<exists>p. r = Some p \<and> shopifyCustomerId p = ''undefined'' \<and>
           orders_paid E now req d = apply_purchase now p d \<and>
           (\<exists>u \<in> set (users (snd (orders_paid E now req d))).
               u_shopify_customer_id u = ''undefined'') \<and>
           (\<forall>w d1 k. resolve_wallet p d = (Some w, d1) \<and> points p = Fin (of_int k) \<and>
                \<bar>w_points w\<bar> \<le> 2 ^ 53 \<and> \<bar>w_points w + k\<bar> \<le> 2 ^ 53 \<and>
                \<bar>w_lifetime_points w\<bar> \<le> 2 ^ 53 \<and> \<bar>w_lifetime_points w + k\<bar> \<le> 2 ^ 53 \<longrightarrow>
              fst (orders_paid E now req d) = Send 200 ''OK'' \<and>
              (\<exists>u \<in> set (users d1). u_shopify_customer_id u = ''undefined'' \<and> w_user_id w = u_id u) \<and>
              wallets (snd (orders_paid E now req d)) =
                map (\<lambda>x. if w_id x = w_id w
                          then x\<lparr>w_points := w_points w + k,
                                 w_lifetime_points := w_lifetime_points w + k,
                                 w_updated_at := Some now\<rparr>
                          else x) (wallets d1))))"
proof (intro conjI impI)
  show "(fst (orders_paid E now req d) = Send 200 ''No customer'') = (\<not> truthy customer)"
    by (rule orders_paid_no_op_iff [OF assms])
next
  assume h: "truthy customer \<and> get_prop customer ''id'' = Inr JUndefined \<and> read_order E order = Inr r"
  from read_order_without_id [OF assms(3)] h obtain p where
    p: "r = Some p" "shopifyCustomerId p = ''undefined''" by blast
  have ro: "read_order E order = Inr (Some p)" using h p by simp
  have o: "orders_paid E now req d = apply_purchase now p d"
    by (rule orders_paid_purchase [OF assms(1,2) ro])
  obtain rows us where up:
    "upsert_user (shopifyCustomerId p) (email p) (name p) (users d) = (rows, us)"
    by (cases "upsert_user (shopifyCustomerId p) (email p) (name p) (users d)")
  have "users (snd (orders_paid E now req d)) = us"
    by (simp only: o apply_purchase_users up snd_conv)
  then have u: "\<exists>u \<in> set (users (snd (orders_paid E now req d))). u_shopify_customer_id u = ''undefined''"
    using upsert_user_key_present [OF up] by (simp only: p(2))
  have c: "fst (orders_paid E now req d) = Send 200 ''OK'' \<and>
      (\<exists>u \<in> set (users d1). u_shopify_customer_id u = ''undefined'' \<and> w_user_id w = u_id u) \<and>
      wallets (snd (orders_paid E now req d)) =
        map (\<lambda>x. if w_id x = w_id w
                  then x\<lparr>w_points := w_points w + k,
                         w_lifetime_points := w_lifetime_points w + k,
                         w_updated_at := Some now\<rparr>
                  else x) (wallets d1)"
    if "resolve_wallet p d = (Some w, d1) \<and> points p = Fin (of_int k) \<and>
        \<bar>w_points w\<bar> \<le> 2 ^ 53 \<and> \<bar>w_points w + k\<bar> \<le> 2 ^ 53 \<and>
        \<bar>w_lifetime_points w\<bar> \<le> 2 ^ 53 \<and> \<bar>w_lifetime_points w + k\<bar> \<le> 2 ^ 53" for w d1 k
  proof -
    from that have r: "resolve_wallet p d = (Some w, d1)" and k: "points p = Fin (of_int k)"
      and s: "\<bar>w_points w\<bar> \<le> 2 ^ 53" "\<bar>w_points w + k\<bar> \<le> 2 ^ 53"
        "\<bar>w_lifetime_points w\<bar> \<le> 2 ^ 53" "\<bar>w_lifetime_points w + k\<bar> \<le> 2 ^ 53"
      by simp_all
    from resolve_wallet_owner [OF r] p(2)
    have "\<exists>u \<in> set (users d1). u_shopify_customer_id u = ''undefined'' \<and> w_user_id w = u_id u"
      by simp
    then show ?thesis
      using record_award_exact [OF k s, of now d1] r by (simp add: o apply_purchase_def)
  qed
  from p o u c
  show "\<exists>p. r = Some p \<and> shopifyCustomerId p = ''undefined'' \<and>
           orders_paid E now req d = apply_purchase now p d \<and>
           (\<exists>u \<in> set (users (snd (orders_paid E now req d))).
               u_shopify_customer_id u = ''undefined'') \<and>
           (\<forall>w d1 k. resolve_wallet p d = (Some w, d1) \<and> points p = Fin (of_int k) \<and>
                \<bar>w_points w\<bar> \<le> 2 ^ 53 \<and> \<bar>w_points w + k\<bar> \<le> 2 ^ 53 \<and>
                \<bar>w_lifetime_points w\<bar> \<le> 2 ^ 53 \<and> \<bar>w_lifetime_points w + k\<bar> \<le> 2 ^ 53 \<longrightarrow>
              fst (orders_paid E now req d) = Send 200 ''OK'' \<and>
              (\<exists>u \<in> set (users d1). u_shopify_customer_id u = ''undefined'' \<and> w_user_id w = u_id u) \<and>
              wallets (snd (orders_paid E now req d)) =
                map (\<lambda>x. if w_id x = w_id w
                          then x\<lparr>w_points := w_points w + k,
                                 w_lifetime_points := w_lifetime_points w + k,
                                 w_updated_at := Some now\<rparr>
                          else x) (wallets d1))"
    by blast
qed

theorem orders_paid_customer_without_id_witness:
  "verifyHmac test_env (signed body_no_id) = Inr True \<and>
   getJson test_env (signed body_no_id) = Inr order_no_id \<and>
   get_prop order_no_id ''customer'' = Inr (JObj [(''email'', JStr ''x@example.com'')]) \<and>
   truthy (JObj [(''email'', JStr ''x@example.com'')]) \<and>
   get_prop (JObj [(''email'', JStr ''x@example.com'')]) ''id'' = Inr JUndefined \<and>
   read_order test_env order_no_id = Inr (Some purchase_no_id) \<and>
   shopifyCustomerId purchase_no_id = ''undefined'' \<and>
   resolve_wallet purchase_no_id empty_db = (Some wallet_new, db_undefined_new) \<and>
   points purchase_no_id = Fin (of_int 30) \<and>
   fst (orders_paid test_env ''2024-01-01T00:00:00.000Z'' (signed body_no_id) empty_db)
     \<noteq> Send 200 ''No customer'' \<and>
   fst (orders_paid test_env ''2024-01-01T00:00:00.000Z'' (signed body_no_id) empty_db)
     = Send 200 ''OK'' \<and>
   wallets (snd (orders_paid test_env ''2024-01-01T00:00:00.000Z'' (signed body_no_id) empty_db))
     = [wallet_30]"
proof -
  let ?c = "JObj [(''email'', JStr ''x@example.com'')]"
  let ?r = "orders_paid test_env ''2024-01-01T00:00:00.000Z'' (signed body_no_id) empty_db"
  have 2: "getJson test_env (signed body_no_id) = Inr order_no_id"
    by (simp add: parse_signed test_parse_bodies)
  have 3: "get_prop order_no_id ''customer'' = Inr ?c" by (simp add: order_no_id_def)
  have 4: "truthy ?c" by simp
  have 5: "get_prop ?c ''id'' = Inr JUndefined" by simp
  have 7: "shopifyCustomerId purchase_no_id = ''undefined''" by (simp add: purchase_no_id_def)
  have 9: "points purchase_no_id = Fin (of_int 30)" by (simp add: purchase_no_id_def)
  have s: "\<bar>w_points wallet_new\<bar> \<le> 2 ^ 53" "\<bar>w_points wallet_new + 30\<bar> \<le> 2 ^ 53"
    "\<bar>w_lifetime_points wallet_new\<bar> \<le> 2 ^ 53" "\<bar>w_lifetime_points wallet_new + 30\<bar> \<le> 2 ^ 53"
    by (simp_all add: wallet_new_def)
  note t = orders_paid_customer_without_id [OF verify_signed 2 3,
      of "''2024-01-01T00:00:00.000Z''" empty_db "Some purchase_no_id"]
  from t 4 have a: "fst ?r \<noteq> Send 200 ''No customer''" by blast
  from t 4 5 read_order_no_id resolve_no_id 9 s
  have "fst ?r = Send 200 ''OK'' \<and>
     wallets (snd ?r) =
       map (\<lambda>x. if w_id x = w_id wallet_new
                 then x\<lparr>w_points := w_points wallet_new + 30,
                        w_lifetime_points := w_lifetime_points wallet_new + 30,
                        w_updated_at := Some ''2024-01-01T00:00:00.000Z''\<rparr>
                 else x) (wallets db_undefined_new)"
    by blast
  then have b: "fst ?r = Send 200 ''OK''" and c: "wallets (snd ?r) = [wallet_30]"
    by (simp_all add: db_undefined_new_def wallet_new_def wallet_30_def)
  from verify_signed [of body_no_id] 2 3 4 5 read_order_no_id 7 resolve_no_id 9 a b c
  show ?thesis by blast
qed

text \<open>
  C6. Two authenticated purchase events for the same customer id, with distinct order
  ids and point awards \<open>k1\<close> and \<open>k2\<close>, are both applied: the customer's totals grow by
  \<open>k1\<close> and then by \<open>k2\<close>, and when lifetime and current total were equal before (no
  spends), they are equal afterwards. For a new customer with order totals "10.00" and
  then "5.00" the totals are 30 and 30 after the first event, 45 and 45 after the second.
\<close>

theorem orders_paid_two_orders:
  assumes "verifyHmac E r1 = Inr True" and "getJson E r1 = Inr o1"
    and "read_order E o1 = Inr (Some p1)"
    and "verifyHmac E r2 = Inr True" and "getJson E r2 = Inr o2"
    and "read_order E o2 = Inr (Some p2)"
    and "shopifyCustomerId p1 = c" and "shopifyCustomerId p2 = c"
    and "orderId p1 \<noteq> orderId p2"
    and "points p1 = Fin (of_int k1)" and "points p2 = Fin (of_int k2)"
    and "store_ok d" and "balance_of c d = (a, l)"
    and "\<bar>a\<bar> \<le> 2 ^ 53" and "\<bar>a + k1\<bar> \<le> 2 ^ 53" and "\<bar>a + k1 + k2\<bar> \<le> 2 ^ 53"
    and "\<bar>l\<bar> \<le> 2 ^ 53" and "\<bar>l + k1\<bar> \<le> 2 ^ 53" and "\<bar>l + k1 + k2\<bar> \<le> 2 ^ 53"
  shows "fst (orders_paid E t1 r1 d) = Send 200 ''OK'' \<and>
         balance_of c (snd (orders_paid E t1 r1 d)) = (a + k1, l + k1) \<and>
         fst (orders_paid E t2 r2 (snd (orders_paid E t1 r1 d))) = Send 200 ''OK'' \<and>
         balance_of c (snd (orders_paid E t2 r2 (snd (orders_paid E t1 r1 d))))
           = (a + k1 + k2, l + k1 + k2) \<and>
         (l = a \<longrightarrow>
            snd (balance_of c (snd (orders_paid E t2 r2 (snd (orders_paid E t1 r1 d)))))
              = fst (balance_of c (snd (orders_paid E t2 r2 (snd (orders_paid E t1 r1 d))))))"
proof -
  let ?d1 = "snd (orders_paid E t1 r1 d)"
  have o1: "orders_paid E t1 r1 d = apply_purchase t1 p1 d"
    by (rule orders_paid_purchase [OF assms(1-3)])
  have b0: "balance_of (shopifyCustomerId p1) d = (a, l)" using assms(7,13) by simp
  note s1 = apply_purchase_step [OF assms(12,10) b0 assms(14,15,17,18), of t1,
      folded o1, unfolded assms(7)]
  from s1 have ok1: "store_ok ?d1" and b1': "balance_of c ?d1 = (a + k1, l + k1)" by simp_all
  have o2: "orders_paid E t2 r2 ?d1 = apply_purchase t2 p2 ?d1"
    by (rule orders_paid_purchase [OF assms(4-6)])
  have b1: "balance_of (shopifyCustomerId p2) ?d1 = (a + k1, l + k1)" using assms(8) b1' by simp
  have s: "\<bar>a + k1\<bar> \<le> 2 ^ 53" "\<bar>a + k1 + k2\<bar> \<le> 2 ^ 53" "\<bar>l + k1\<bar> \<le> 2 ^ 53"
    "\<bar>l + k1 + k2\<bar> \<le> 2 ^ 53" using assms(15,16,18,19) by simp_all
  note s2 = apply_purchase_step [OF ok1 assms(11) b1 s, of t2, folded o2, unfolded assms(8)]
  from s1 s2 show ?thesis by simp
qed

theorem orders_paid_two_orders_witness:
  "verifyHmac test_env (signed body_O1) = Inr True \<and>
   getJson test_env (signed body_O1) = Inr order_O1 \<and>
   read_order test_env order_O1 = Inr (Some purchase_O1) \<and>
   verifyHmac test_env (signed body_O2) = Inr True \<and>
   getJson test_env (signed body_O2) = Inr order_O2 \<and>
   read_order test_env order_O2 = Inr (Some purchase_O2) \<and>
   shopifyCustomerId purchase_O1 = ''C1'' \<and> shopifyCustomerId purchase_O2 = ''C1'' \<and>
   orderId purchase_O1 \<noteq> orderId purchase_O2 \<and>
   points purchase_O1 = Fin (of_int 30) \<and> points purchase_O2 = Fin (of_int 15) \<and>
   store_ok empty_db \<and> balance_of ''C1'' empty_db = (0, 0) \<and>
   balance_of ''C1'' (snd (orders_paid test_env ''2024-01-01T00:00:00.000Z'' (signed body_O1)
     empty_db)) = (30, 30) \<and>
   balance_of ''C1'' (snd (orders_paid test_env ''2024-01-02T00:00:00.000Z'' (signed body_O2)
     (snd (orders_paid test_env ''2024-01-01T00:00:00.000Z'' (signed body_O1) empty_db))))
     = (45, 45)"
proof -
  have 7: "shopifyCustomerId purchase_O1 = ''C1''" "shopifyCustomerId purchase_O2 = ''C1''"
    by (simp_all add: purchase_O1_def purchase_O2_def)
  have 9: "orderId purchase_O1 \<noteq> orderId purchase_O2"
    by (simp add: purchase_O1_def purchase_O2_def)
  have 10: "points purchase_O1 = Fin (of_int 30)" "points purchase_O2 = Fin (of_int 15)"
    by (simp_all add: purchase_O1_def purchase_O2_def)
  have s: "\<bar>0::int\<bar> \<le> 2 ^ 53" "\<bar>0 + 30 :: int\<bar> \<le> 2 ^ 53" "\<bar>0 + 30 + 15 :: int\<bar> \<le> 2 ^ 53"
    by simp_all
  note t = orders_paid_two_orders [OF verify_signed parse_O1 read_order_O1 verify_signed
      parse_O2 read_order_O2 7 9 10 store_ok_empty balance_of_empty s s,
      of "''2024-01-01T00:00:00.000Z''" "''2024-01-02T00:00:00.000Z''"]
  from t have a: "balance_of ''C1'' (snd (orders_paid test_env ''2024-01-01T00:00:00.000Z''
      (signed body_O1) empty_db)) = (30, 30)" by simp
  from t have b: "balance_of ''C1'' (snd (orders_paid test_env ''2024-01-02T00:00:00.000Z''
      (signed body_O2) (snd (orders_paid test_env ''2024-01-01T00:00:00.000Z''
      (signed body_O1) empty_db)))) = (45, 45)" by simp
  from verify_signed [of body_O1] parse_O1 read_order_O1 verify_signed [of body_O2] parse_O2
    read_order_O2 7 9 10 store_ok_empty balance_of_empty [of "''C1''"] a b
  show ?thesis by blast
qed

text \<open>
  C1 (as amended). Two authenticated deliveries for the same customer that carry the
  same order id and the same award \<open>k\<close> are both applied: the second delivery adds \<open>k\<close>
  to the current and to the lifetime total again, so that the final totals hold the
  award twice; the second delivery leaves the totals as they were only when \<open>k = 0\<close>.
\<close>

theorem orders_paid_redelivery:
  assumes "verifyHmac E r1 = Inr True" and "getJson E r1 = Inr o1"
    and "read_order E o1 = Inr (Some p1)"
    and "verifyHmac E r2 = Inr True" and "getJson E r2 = Inr o2"
    and "read_order E o2 = Inr (Some p2)"
    and "shopifyCustomerId p1 = c" and "shopifyCustomerId p2 = c"
    and "orderId p1 = orderId p2"
    and "points p1 = Fin (of_int k)" and "points p2 = Fin (of_int k)"
    and "store_ok d" and "balance_of c d = (a, l)"
    and "\<bar>a\<bar> \<le> 2 ^ 53" and "\<bar>a + k\<bar> \<le> 2 ^ 53" and "\<bar>a + k + k\<bar> \<le> 2 ^ 53"
    and "\<bar>l\<bar> \<le> 2 ^ 53" and "\<bar>l + k\<bar> \<le> 2 ^ 53" and "\<bar>l + k + k\<bar> \<le> 2 ^ 53"
  shows "balance_of c (snd (orders_paid E t1 r1 d)) = (a + k, l + k) \<and>
         fst (orders_paid E t2 r2 (snd (orders_paid E t1 r1 d))) = Send 200 ''OK'' \<and>
         balance_of c (snd (orders_paid E t2 r2 (snd (orders_paid E t1 r1 d))))
           = (a + 2 * k, l + 2 * k) \<and>
         ((balance_of c (snd (orders_paid E t2 r2 (snd (orders_paid E t1 r1 d))))
            = balance_of c (snd (orders_paid E t1 r1 d))) = (k = 0))"
proof -
  let ?d1 = "snd (orders_paid E t1 r1 d)"
  have o1: "orders_paid E t1 r1 d = apply_purchase t1 p1 d"
    by (rule orders_paid_purchase [OF assms(1-3)])
  have b0: "balance_of (shopifyCustomerId p1) d = (a, l)" using assms(7,13) by simp
  note s1 = apply_purchase_step [OF assms(12,10) b0 assms(14,15,17,18), of t1,
      folded o1, unfolded assms(7)]
  from s1 have ok1: "store_ok ?d1" and b1': "balance_of c ?d1 = (a + k, l + k)" by simp_all
  have o2: "orders_paid E t2 r2 ?d1 = apply_purchase t2 p2 ?d1"
    by (rule orders_paid_purchase [OF assms(4-6)])
  have b1: "balance_of (shopifyCustomerId p2) ?d1 = (a + k, l + k)" using assms(8) b1' by simp
  have s: "\<bar>a + k\<bar> \<le> 2 ^ 53" "\<bar>a + k + k\<bar> \<le> 2 ^ 53" "\<bar>l + k\<bar> \<le> 2 ^ 53"
    "\<bar>l + k + k\<bar> \<le> 2 ^ 53" using assms(15,16,18,19) by simp_all
  note s2 = apply_purchase_step [OF ok1 assms(11) b1 s, of t2, folded o2, unfolded assms(8)]
  from s1 s2 show ?thesis by simp
qed

theorem orders_paid_redelivery_witness:
  "verifyHmac test_env (signed body_O1) = Inr True \<and>
   getJson test_env (signed body_O1) = Inr order_O1 \<and>
   read_order test_env order_O1 = Inr (Some purchase_O1) \<and>
   shopifyCustomerId purchase_O1 = ''C1'' \<and>
   orderId purchase_O1 = orderId purchase_O1 \<and>
   points purchase_O1 = Fin (of_int 30) \<and>
   store_ok empty_db \<and> balance_of ''C1'' empty_db = (0, 0) \<and>
   balance_of ''C1'' (snd (orders_paid test_env ''2024-01-01T00:00:00.000Z'' (signed body_O1)
     empty_db)) = (30, 30) \<and>
   balance_of ''C1'' (snd (orders_paid test_env ''2024-01-02T00:00:00.000Z'' (signed body_O1)
     (snd (orders_paid test_env ''2024-01-01T00:00:00.000Z'' (signed body_O1) empty_db))))
     = (60, 60)"
proof -
  have 7: "shopifyCustomerId purchase_O1 = ''C1''" by (simp add: purchase_O1_def)
  have 9: "orderId purchase_O1 = orderId purchase_O1" by simp
  have 10: "points purchase_O1 = Fin (of_int 30)" by (simp add: purchase_O1_def)
  have s: "\<bar>0::int\<bar> \<le> 2 ^ 53" "\<bar>0 + 30 :: int\<bar> \<le> 2 ^ 53" "\<bar>0 + 30 + 30 :: int\<bar> \<le> 2 ^ 53"
    by simp_all
  note t = orders_paid_redelivery [OF verify_signed parse_O1 read_order_O1 verify_signed
      parse_O1 read_order_O1 7 7 9 10 10 store_ok_empty balance_of_empty s s,
      of "''2024-01-01T00:00:00.000Z''" "''2024-01-02T00:00:00.000Z''"]
  from t have a: "balance_of ''C1'' (snd (orders_paid test_env ''2024-01-01T00:00:00.000Z''
      (signed body_O1) empty_db)) = (30, 30)" by simp
  from t have b: "balance_of ''C1'' (snd (orders_paid test_env ''2024-01-02T00:00:00.000Z''
      (signed body_O1) (snd (orders_paid test_env ''2024-01-01T00:00:00.000Z''
      (signed body_O1) empty_db)))) = (60, 60)" by simp
  from verify_signed [of body_O1] parse_O1 read_order_O1 7 9 10 store_ok_empty
    balance_of_empty [of "''C1''"] a b
  show ?thesis by blast
qed

theorem redelivery_counterexample:
  "verifyHmac test_env (signed body_O1) = Inr True \<and>
   snd (orders_paid test_env ''2024-01-01T00:00:00.000Z'' (signed body_O1) empty_db)
     = db_after_O1 \<and>
   wallets db_after_O1 = [wallet_30] \<and>
   wallets (snd (orders_paid test_env ''2024-01-02T00:00:00.000Z'' (signed body_O1)
     (snd (orders_paid test_env ''2024-01-01T00:00:00.000Z'' (signed body_O1) empty_db))))
     = [wallet_60] \<and>
   w_points wallet_30 = 30 \<and> w_lifetime_points wallet_30 = 30 \<and>
   w_points wallet_60 = 60 \<and> w_lifetime_points wallet_60 = 60"
  by (simp add: run_O1 run_O1_again verify_signed)
     (simp add: db_after_O1_def wallet_30_def wallet_60_def)

text \<open>
  C3 (as amended). When the award the handler computes is not negative, the webhook
  handler keeps every wallet's current total non-negative and lowers no wallet's
  lifetime total: each row of the wallet table keeps its id and its lifetime total does
  not decrease (totals and award within \<open>2^52\<close>, where the program's numbers are exact).
  This covers every outcome of the handler, the refusals included, and the balance query
  writes nothing.
\<close>

theorem balance_invariants:
  assumes "distinct (map w_id (wallets d))"
    and "\<forall>w \<in> set (wallets d). 0 \<le> w_points w \<and> w_points w \<le> 2 ^ 52 \<and>
            \<bar>w_lifetime_points w\<bar> \<le> 2 ^ 52"
    and "\<forall>a. award E req = Some (Fin a) \<longrightarrow> 0 \<le> a \<and> a \<le> 2 ^ 52"
  shows "(\<forall>w \<in> set (wallets (snd (orders_paid E now req d))). 0 \<le> w_points w) \<and>
         list_all2 (\<lambda>x y. w_id y = w_id x \<and> w_lifetime_points x \<le> w_lifetime_points y)
           (wallets d) (take (length (wallets d)) (wallets (snd (orders_paid E now req d)))) \<and>
         snd (wallet_by_email q d) = d"
proof -
  let ?P = "\<lambda>x y. w_id y = w_id x \<and> w_lifetime_points x \<le> w_lifetime_points y"
  have same: "(\<forall>w \<in> set (wallets d). 0 \<le> w_points w) \<and>
      list_all2 ?P (wallets d) (take (length (wallets d)) (wallets d))"
    using assms(2) by (simp add: list_all2_same)
  have "(\<forall>w \<in> set (wallets (snd (orders_paid E now req d))). 0 \<le> w_points w) \<and>
         list_all2 ?P (wallets d)
           (take (length (wallets d)) (wallets (snd (orders_paid E now req d))))"
  proof (cases "\<exists>p. verifyHmac E req = Inr True \<and>
      bind_e (getJson E req) (read_order E) = Inr (Some p)")
    case True
    then obtain p where v: "verifyHmac E req = Inr True"
      and b: "bind_e (getJson E req) (read_order E) = Inr (Some p)" by blast
    from b obtain order where "read_order E order = Inr (Some p)"
      by (cases "getJson E req") (auto simp: bind_e_def)
    from read_order_points [OF this] obtain v' where c: "calcPoints E v' = Inr (points p)" ..
    have "award E req = Some (points p)" using v b by (simp add: award_def)
    with assms(3) have aw: "\<forall>a. points p = Fin a \<longrightarrow> 0 \<le> a \<and> a \<le> 2 ^ 52" by simp
    have "orders_paid E now req d = apply_purchase now p d"
      using v b by (simp add: orders_paid_def)
    with apply_purchase_invariants [OF assms(1,2) c aw, of now] show ?thesis by simp
  next
    case False
    then have "snd (orders_paid E now req d) = d"
      by (auto simp: orders_paid_def split: sum.splits bool.splits option.splits)
    with same show ?thesis by simp
  qed
  then show ?thesis by (simp add: wallet_by_email_no_write)
qed

theorem balance_invariants_witness:
  "distinct (map w_id (wallets db_after_O1)) \<and>
   list_all (\<lambda>w. 0 \<le> w_points w \<and> w_points w \<le> 2 ^ 52 \<and> \<bar>w_lifetime_points w\<bar> \<le> 2 ^ 52)
     (wallets db_after_O1) \<and>
   award test_env (signed body_O2) = Some (Fin 15) \<and>
   list_all (\<lambda>w. 0 \<le> w_points w)
     (wallets (snd (orders_paid test_env ''2024-01-02T00:00:00.000Z'' (signed body_O2)
        db_after_O1))) \<and>
   list_all2 (\<lambda>x y. w_id y = w_id x \<and> w_lifetime_points x \<le> w_lifetime_points y)
     (wallets db_after_O1)
     (take (length (wallets db_after_O1))
        (wallets (snd (orders_paid test_env ''2024-01-02T00:00:00.000Z'' (signed body_O2)
           db_after_O1)))) \<and>
   snd (wallet_by_email (Some ''c1@example.com'') db_after_O1) = db_after_O1"
proof -
  have 1: "distinct (map w_id (wallets db_after_O1))" by (simp add: db_after_O1_def)
  have 2: "\<forall>w \<in> set (wallets db_after_O1). 0 \<le> w_points w \<and> w_points w \<le> 2 ^ 52 \<and>
      \<bar>w_lifetime_points w\<bar> \<le> 2 ^ 52"
    by (simp add: db_after_O1_def wallet_30_def)
  have 3: "\<forall>a. award test_env (signed body_O2) = Some (Fin a) \<longrightarrow> 0 \<le> a \<and> a \<le> 2 ^ 52"
    by (simp add: award_O2)
  from balance_invariants [OF 1 2 3, of "''2024-01-02T00:00:00.000Z''" "Some ''c1@example.com''"]
    1 2 award_O2
  show ?thesis by (simp add: list_all_iff)
qed

theorem negative_award_counterexample:
  "verifyHmac test_env (signed body_refund) = Inr True \<and>
   wallets (snd (orders_paid test_env ''2024-01-02T00:00:00.000Z'' (signed body_refund)
     empty_db)) = [wallet_overdrawn] \<and>
   w_points wallet_overdrawn < 0 \<and>
   wallets db_after_O1 = [wallet_30] \<and>
   wallets (snd (orders_paid test_env ''2024-01-02T00:00:00.000Z'' (signed body_refund)
     db_after_O1)) = [wallet_15] \<and>
   w_id wallet_15 = w_id wallet_30 \<and>
   w_lifetime_points wallet_15 < w_lifetime_points wallet_30"
  by (simp add: run_refund_empty run_refund_after verify_signed)
     (simp add: db_after_O1_def wallet_30_def wallet_15_def wallet_overdrawn_def)

end
